theory Spec2Isabelle
  imports Complex_Main
begin

section \<open>Arrays\<close>

text \<open>
  The program computes with numpy arrays of floats. A one-dimensional array is a list of
  reals and a two-dimensional array of shape (m, n) is a list of m rows, each of length n.
  Arithmetic is exact: rounding, overflow, infinities and NaN of the floats are not part
  of this development. A list of rows cannot carry the column count of an array without
  rows, so the operations that need it take it as an argument. Where numpy raises, the
  operation returns the error. Broadcasting an axis of length one against a longer axis
  is returned as \<open>ValueError\<close> as well: arrays built by \<open>HiddenLayer.__init__\<close> and
  \<open>HiddenLayer.backward_pass\<close> never meet that way.
\<close>

type_synonym vec = "real list"
type_synonym mat = "real list list"

datatype error =
    ValueError
  | AttributeError
  | ZeroDivisionError
  | UnboundLocalError
  | IndexError
  | KeyError

text \<open>\<open>is_mat m n A\<close>: the list of rows \<open>A\<close> is an array of shape (m, n).\<close>

definition is_mat :: "nat \<Rightarrow> nat \<Rightarrow> mat \<Rightarrow> bool" where
  "is_mat m n A = (length A = m \<and> list_all (\<lambda>r. length r = n) A)"

text \<open>Elementwise operations on arrays of one shape.\<close>

definition vec_add :: "vec \<Rightarrow> vec \<Rightarrow> vec" where
  "vec_add u v = map2 (+) u v"

definition vec_sub :: "vec \<Rightarrow> vec \<Rightarrow> vec" where
  "vec_sub u v = map2 (-) u v"

definition vec_scale :: "real \<Rightarrow> vec \<Rightarrow> vec" where
  "vec_scale c v = map ((*) c) v"

definition mat_add :: "mat \<Rightarrow> mat \<Rightarrow> mat" where
  "mat_add A B = map2 vec_add A B"

definition mat_sub :: "mat \<Rightarrow> mat \<Rightarrow> mat" where
  "mat_sub A B = map2 vec_sub A B"

definition mat_scale :: "real \<Rightarrow> mat \<Rightarrow> mat" where
  "mat_scale c A = map (vec_scale c) A"

text \<open>\<open>np.dot\<close> of two one-dimensional arrays of one length.\<close>

definition dot :: "vec \<Rightarrow> vec \<Rightarrow> real" where
  "dot u v = sum_list (map2 (*) u v)"

text \<open>
  \<open>np.dot(x, A)\<close> for \<open>x\<close> of shape (m) and \<open>A\<close> of shape (m, n): the sum of the rows
  of \<open>A\<close>, each scaled by its entry of \<open>x\<close>. numpy raises when the lengths differ.
\<close>

fun rows_comb :: "nat \<Rightarrow> vec \<Rightarrow> mat \<Rightarrow> vec" where
  "rows_comb n (a # x) (r # A) = vec_add (vec_scale a r) (rows_comb n x A)"
| "rows_comb n _ _ = replicate n 0"

definition np_dot_vm :: "nat \<Rightarrow> vec \<Rightarrow> mat \<Rightarrow> error + vec" where
  "np_dot_vm n x A = (if length x = length A then Inr (rows_comb n x A) else Inl ValueError)"

text \<open>
  \<open>np.dot(J, W.T)\<close> for \<open>J\<close> of shape (k, k') and \<open>W\<close> of shape (m, n): entry (i, j) is the
  dot product of row i of \<open>J\<close> and row j of \<open>W\<close> (column j of \<open>W.T\<close>). numpy raises unless
  k' = n; the caller gives both column counts.
\<close>

definition np_dot_mT :: "nat \<Rightarrow> nat \<Rightarrow> mat \<Rightarrow> mat \<Rightarrow> error + mat" where
  "np_dot_mT k' n J W =
     (if k' = n then Inr (map (\<lambda>r. map (\<lambda>w. dot r w) W) J) else Inl ValueError)"

text \<open>\<open>np.diag\<close> of a one-dimensional array: the square array with it on the diagonal.\<close>

definition np_diag_v :: "vec \<Rightarrow> mat" where
  "np_diag_v v =
     map (\<lambda>i. map (\<lambda>j. if i = j then v ! i else 0) [0..<length v]) [0..<length v]"

text \<open>\<open>np.diag\<close> of a square two-dimensional array: its diagonal.\<close>

definition np_diag_m :: "mat \<Rightarrow> vec" where
  "np_diag_m A = map (\<lambda>i. A ! i ! i) [0..<length A]"

definition np_outer :: "vec \<Rightarrow> vec \<Rightarrow> mat" where
  "np_outer u v = map (\<lambda>a. map (\<lambda>c. a * c) v) u"

text \<open>
  \<open>g * A\<close> for \<open>g\<close> of shape (k) and \<open>A\<close> of shape (m, k): numpy broadcasts \<open>g\<close> along the
  rows, so every row of \<open>A\<close> is multiplied entry by entry with \<open>g\<close>.
\<close>

definition bcast_mul :: "vec \<Rightarrow> mat \<Rightarrow> mat" where
  "bcast_mul g A = map (\<lambda>r. map2 (*) g r) A"

text \<open>
  \<open>np.sum(gs, axis=0)\<close> of a Python list of arrays. The empty list gives the scalar 0.0
  (\<open>None\<close> here); a list of arrays of one shape gives their entrywise sum; arrays of
  different shapes raise.
\<close>

fun same_len :: "'a list \<Rightarrow> 'a list list \<Rightarrow> bool" where
  "same_len g [] = True"
| "same_len g (h # gs) = (length h = length g \<and> same_len g gs)"

fun np_sum_vecs :: "vec list \<Rightarrow> error + vec option" where
  "np_sum_vecs [] = Inr None"
| "np_sum_vecs (g # gs) =
     (if same_len g gs then Inr (Some (foldl vec_add g gs)) else Inl ValueError)"

fun same_shape :: "mat \<Rightarrow> mat list \<Rightarrow> bool" where
  "same_shape G [] = True"
| "same_shape G (H # Gs) = (map length H = map length G \<and> same_shape G Gs)"

fun np_sum_mats :: "mat list \<Rightarrow> error + mat option" where
  "np_sum_mats [] = Inr None"
| "np_sum_mats (G # Gs) =
     (if same_shape G Gs then Inr (Some (foldl mat_add G Gs)) else Inl ValueError)"

text \<open>
  \<open>a -= c * s\<close> in place, where \<open>s\<close> is what \<open>np.sum\<close> returned: the scalar 0.0 leaves
  every entry as it is (x - c * 0.0), an array of the shape of \<open>a\<close> is scaled and
  subtracted, any other shape raises (an axis of length 1 is not stretched, as said
  above).
\<close>

definition isub_vec :: "vec \<Rightarrow> real \<Rightarrow> vec option \<Rightarrow> error + vec" where
  "isub_vec a c s =
     (case s of
        None \<Rightarrow> Inr (map (\<lambda>x. x - c * 0) a)
      | Some v \<Rightarrow> if length v = length a then Inr (vec_sub a (vec_scale c v)) else Inl ValueError)"

definition isub_mat :: "mat \<Rightarrow> real \<Rightarrow> mat option \<Rightarrow> error + mat" where
  "isub_mat A c S =
     (case S of
        None \<Rightarrow> Inr (map (map (\<lambda>x. x - c * 0)) A)
      | Some B \<Rightarrow>
          if map length B = map length A then Inr (mat_sub A (mat_scale c B))
          else Inl ValueError)"

text \<open>\<open>np.max\<close> and \<open>np.argmax\<close> of a one-dimensional array; both raise on an empty one.\<close>

fun np_max :: "vec \<Rightarrow> error + real" where
  "np_max [] = Inl ValueError"
| "np_max (x # xs) = Inr (foldl max x xs)"

fun argmax_from :: "nat \<Rightarrow> real \<Rightarrow> nat \<Rightarrow> vec \<Rightarrow> nat" where
  "argmax_from best bv i [] = best"
| "argmax_from best bv i (x # xs) =
     (if bv < x then argmax_from i x (Suc i) xs else argmax_from best bv (Suc i) xs)"

fun np_argmax :: "vec \<Rightarrow> error + nat" where
  "np_argmax [] = Inl ValueError"
| "np_argmax (x # xs) = Inr (argmax_from 0 x 1 xs)"

section \<open>Layers\<close>

text \<open>
  Modelled from the spec: \<open>nn/activation.py\<close> is not among the sources. The spec describes
  the activation strategy as an elementwise nonlinearity and its elementwise derivative,
  so an activation is a pair of functions on numbers, applied to every entry of an array.
\<close>

record activation =
  act_call :: "real \<Rightarrow> real"
  act_gradient :: "real \<Rightarrow> real"

text \<open>
  Modelled from the spec: \<open>Relu\<close>, the default activation of \<open>HiddenLayer\<close>, is imported
  from the absent \<open>nn/activation.py\<close>; the spec calls it an elementwise nonlinearity with
  its derivative.
\<close>

definition Relu :: activation where
  "Relu = \<lparr>act_call = (\<lambda>x. max x 0), act_gradient = (\<lambda>x. if 0 < x then 1 else 0)\<rparr>"

text \<open>
  \<open>HiddenLayer\<close>: the attributes of the class, with \<open>h_\<close> before each name. \<open>h_input\<close> and
  \<open>h_output\<close> do not exist before the first \<open>forward_pass\<close> (\<open>None\<close>). \<open>h_size\<close> is
  \<open>output_size\<close>, the column count of \<open>h_W\<close>; the row count of \<open>h_W\<close> is \<open>input_size\<close>.
\<close>

record hidden_layer =
  h_size :: nat
  h_W :: mat
  h_b :: vec
  h_learning_rate :: real
  h_activation :: activation
  h_W_gradients :: "mat list"
  h_b_gradients :: "vec list"
  h_input :: "vec option"
  h_output :: "vec option"

record softmax_layer =
  s_size :: nat
  s_input :: "vec option"
  s_output :: "vec option"

datatype layer =
    InputLayer nat
  | HiddenLayer hidden_layer
  | SoftmaxLayer softmax_layer

text \<open>
  \<open>HiddenLayer.__init__\<close> builds \<open>W\<close> of shape (input_size, output_size) and \<open>b\<close> of shape
  (output_size) and leaves both buffers empty; \<open>forward_pass\<close> returns only for an input
  of length input_size, and \<open>backward_pass\<close> appends gradients of the shapes of \<open>W\<close> and
  \<open>b\<close>. \<open>wf_hidden\<close> says so; every method that returns keeps it
  (\<open>wf_hidden_forward\<close>, \<open>wf_hidden_backward\<close>, \<open>wf_hidden_update\<close> below).
\<close>

definition wf_hidden :: "hidden_layer \<Rightarrow> bool" where
  "wf_hidden l =
     (is_mat (length (h_W l)) (h_size l) (h_W l) \<and> length (h_b l) = h_size l \<and>
      list_all (is_mat (length (h_W l)) (h_size l)) (h_W_gradients l) \<and>
      list_all (\<lambda>g. length g = h_size l) (h_b_gradients l) \<and>
      (case h_input l of None \<Rightarrow> True | Some X \<Rightarrow> length X = length (h_W l)))"

subsection \<open>HiddenLayer\<close>

definition update_parameters :: "hidden_layer \<Rightarrow> error + hidden_layer" where
  "update_parameters l =
     (case np_sum_mats (h_W_gradients l) of Inl e \<Rightarrow> Inl e | Inr SW \<Rightarrow>
     (case isub_mat (h_W l) (h_learning_rate l) SW of Inl e \<Rightarrow> Inl e | Inr W' \<Rightarrow>
     (case np_sum_vecs (h_b_gradients l) of Inl e \<Rightarrow> Inl e | Inr Sb \<Rightarrow>
     (case isub_vec (h_b l) (h_learning_rate l) Sb of Inl e \<Rightarrow> Inl e | Inr b' \<Rightarrow>
        Inr (l\<lparr>h_W := W', h_W_gradients := [], h_b := b', h_b_gradients := []\<rparr>)))))"

definition hidden_forward :: "hidden_layer \<Rightarrow> vec \<Rightarrow> error + (hidden_layer \<times> vec)" where
  "hidden_forward l X =
     (case np_dot_vm (h_size l) X (h_W l) of Inl e \<Rightarrow> Inl e | Inr XW \<Rightarrow>
      if length (h_b l) \<noteq> h_size l then Inl ValueError
      else let out = map (act_call (h_activation l)) (vec_add XW (h_b l))
           in Inr (l\<lparr>h_input := Some X, h_output := Some out\<rparr>, out))"

definition hidden_backward :: "hidden_layer \<Rightarrow> vec \<Rightarrow> error + (hidden_layer \<times> vec)" where
  "hidden_backward l J_L_N =
     (let J_N_sum = map (map (act_gradient (h_activation l))) (np_diag_v J_L_N) in
      (case np_dot_mT (length J_L_N) (h_size l) J_N_sum (h_W l) of Inl e \<Rightarrow> Inl e
       | Inr J_N_N_prev \<Rightarrow>
      (case h_input l of None \<Rightarrow> Inl AttributeError | Some inp \<Rightarrow>
      (let J_N_W_hat = np_outer inp (np_diag_m J_N_sum);
           J_L_W = bcast_mul J_L_N J_N_W_hat;
           J_L_b = np_diag_m J_N_sum
       in (case np_dot_vm (length (h_W l)) J_L_N J_N_N_prev of Inl e \<Rightarrow> Inl e
           | Inr J_L_N_prev \<Rightarrow>
               Inr (l\<lparr>h_W_gradients := h_W_gradients l @ [J_L_W],
                      h_b_gradients := h_b_gradients l @ [J_L_b]\<rparr>, J_L_N_prev))))))"

subsection \<open>SoftmaxLayer\<close>

definition softmax_forward :: "softmax_layer \<Rightarrow> vec \<Rightarrow> error + (softmax_layer \<times> vec)" where
  "softmax_forward l X =
     (case np_max X of Inl e \<Rightarrow> Inl e | Inr mx \<Rightarrow>
      let e = map (\<lambda>x. exp (x - mx)) X;
          out = map (\<lambda>a. a / sum_list e) e
      in Inr (l\<lparr>s_input := Some X, s_output := Some out\<rparr>, out))"

definition softmax_jacobian :: "vec \<Rightarrow> mat" where
  "softmax_jacobian out =
     map (\<lambda>i. map (\<lambda>j. if i = j then out ! i - (out ! i)\<^sup>2 else - (out ! i) * (out ! j))
                  [0..<length out]) [0..<length out]"

definition softmax_backward :: "softmax_layer \<Rightarrow> vec \<Rightarrow> error + (softmax_layer \<times> vec)" where
  "softmax_backward l J_L_S =
     (case s_output l of None \<Rightarrow> Inl AttributeError | Some out \<Rightarrow>
     (case np_dot_vm (length out) J_L_S (softmax_jacobian out) of Inl e \<Rightarrow> Inl e
      | Inr J_L_N \<Rightarrow> Inr (l, J_L_N)))"

subsection \<open>Dispatch on the class of the layer\<close>

fun forward_pass :: "layer \<Rightarrow> vec \<Rightarrow> error + (layer \<times> vec)" where
  "forward_pass (InputLayer n) X = Inr (InputLayer n, X)"
| "forward_pass (HiddenLayer l) X =
     (case hidden_forward l X of Inl e \<Rightarrow> Inl e | Inr (l', y) \<Rightarrow> Inr (HiddenLayer l', y))"
| "forward_pass (SoftmaxLayer l) X =
     (case softmax_forward l X of Inl e \<Rightarrow> Inl e | Inr (l', y) \<Rightarrow> Inr (SoftmaxLayer l', y))"

fun backward_pass :: "layer \<Rightarrow> vec \<Rightarrow> error + (layer \<times> vec)" where
  "backward_pass (InputLayer n) X = Inr (InputLayer n, X)"
| "backward_pass (HiddenLayer l) X =
     (case hidden_backward l X of Inl e \<Rightarrow> Inl e | Inr (l', y) \<Rightarrow> Inr (HiddenLayer l', y))"
| "backward_pass (SoftmaxLayer l) X =
     (case softmax_backward l X of Inl e \<Rightarrow> Inl e | Inr (l', y) \<Rightarrow> Inr (SoftmaxLayer l', y))"

section \<open>Network\<close>

text \<open>
  Modelled from the spec: \<open>nn/loss.py\<close> and \<open>nn/regularization.py\<close> are not among the
  sources. The spec gives the loss strategy as a scalar loss of the output and the label
  with its gradient, a vector as long as the output, and the regularization strategy as a
  scalar penalty of a weight matrix; both are parameters here.
\<close>

record loss =
  loss_call :: "vec \<Rightarrow> vec \<Rightarrow> real"
  loss_gradient :: "vec \<Rightarrow> vec \<Rightarrow> vec"

text \<open>
  \<open>Network\<close>: the attributes of the class. \<open>wrt\<close> is \<open>None\<close> when no regularization is
  configured. A history is a list of pairs (epoch, value).
\<close>

record network =
  layers :: "layer list"
  loss_function :: loss
  learning_rate :: real
  batch_size :: int
  wreg :: real
  wrt :: "(mat \<Rightarrow> real) option"
  train_loss :: "(int \<times> real) list"
  val_loss :: "(int \<times> real) list"
  train_accuracy :: "(int \<times> real) list"
  val_accuracy :: "(int \<times> real) list"

text \<open>\<open>Network._forward_pass\<close>: the layers in order, each fed the output of the one before.\<close>

fun forward_layers :: "layer list \<Rightarrow> vec \<Rightarrow> error + (layer list \<times> vec)" where
  "forward_layers [] output = Inr ([], output)"
| "forward_layers (l # ls) output =
     (case forward_pass l output of Inl e \<Rightarrow> Inl e | Inr (l', out') \<Rightarrow>
        (case forward_layers ls out' of Inl e \<Rightarrow> Inl e
         | Inr (ls', y) \<Rightarrow> Inr (l' # ls', y)))"

definition net_forward_pass :: "network \<Rightarrow> vec \<Rightarrow> error + (network \<times> vec)" where
  "net_forward_pass net X =
     (case forward_layers (layers net) X of Inl e \<Rightarrow> Inl e
      | Inr (ls, y) \<Rightarrow> Inr (net\<lparr>layers := ls\<rparr>, y))"

text \<open>
  \<open>Network._backward_pass\<close>: the layers of \<open>self.layers[::-1]\<close> in that order, each fed
  the gradient the one before returned. \<open>backward_layers\<close> takes the reversed list and
  returns the layers in the order it visited them.
\<close>

fun backward_layers :: "layer list \<Rightarrow> vec \<Rightarrow> error + (layer list \<times> vec)" where
  "backward_layers [] J_L_N = Inr ([], J_L_N)"
| "backward_layers (l # ls) J_L_N =
     (case backward_pass l J_L_N of Inl e \<Rightarrow> Inl e | Inr (l', J') \<Rightarrow>
        (case backward_layers ls J' of Inl e \<Rightarrow> Inl e
         | Inr (ls', J'') \<Rightarrow> Inr (l' # ls', J'')))"

definition net_backward_pass :: "network \<Rightarrow> vec \<Rightarrow> error + network" where
  "net_backward_pass net J_L_S =
     (case backward_layers (rev (layers net)) J_L_S of Inl e \<Rightarrow> Inl e
      | Inr (ls, J) \<Rightarrow> Inr (net\<lparr>layers := rev ls\<rparr>))"

text \<open>\<open>Network._update_parameters\<close>: every layer whose class is \<open>HiddenLayer\<close>, in order.\<close>

fun update_layers :: "layer list \<Rightarrow> error + layer list" where
  "update_layers [] = Inr []"
| "update_layers (HiddenLayer h # ls) =
     (case update_parameters h of Inl e \<Rightarrow> Inl e | Inr h' \<Rightarrow>
        (case update_layers ls of Inl e \<Rightarrow> Inl e | Inr ls' \<Rightarrow> Inr (HiddenLayer h' # ls')))"
| "update_layers (l # ls) =
     (case update_layers ls of Inl e \<Rightarrow> Inl e | Inr ls' \<Rightarrow> Inr (l # ls'))"

definition net_update_parameters :: "network \<Rightarrow> error + network" where
  "net_update_parameters net =
     (case update_layers (layers net) of Inl e \<Rightarrow> Inl e | Inr ls \<Rightarrow> Inr (net\<lparr>layers := ls\<rparr>))"

text \<open>
  The regularization term of \<open>fit\<close>: \<open>wreg * wrt(layer.W)\<close> is added to the running loss
  for every layer whose class is \<open>HiddenLayer\<close>.
\<close>

fun add_reg :: "real \<Rightarrow> (mat \<Rightarrow> real) \<Rightarrow> layer list \<Rightarrow> real \<Rightarrow> real" where
  "add_reg c r [] acc = acc"
| "add_reg c r (HiddenLayer h # ls) acc = add_reg c r ls (acc + c * r (h_W h))"
| "add_reg c r (l # ls) acc = add_reg c r ls acc"

definition add_loss :: "network \<Rightarrow> vec \<Rightarrow> vec \<Rightarrow> real \<Rightarrow> real" where
  "add_loss net y_hat y acc =
     (let acc' = acc + loss_call (loss_function net) y_hat y
      in case wrt net of None \<Rightarrow> acc' | Some r \<Rightarrow> add_reg (wreg net) r (layers net) acc')"

text \<open>
  The local variables of \<open>fit\<close> that live across iterations. \<open>fs_self\<close> is \<open>self\<close>; \<open>fs_i\<close>
  is the loop variable \<open>i\<close>, shared by the training and the validation loop and unbound
  (\<open>None\<close>) until a loop has run once. \<open>update_log\<close> is not a variable of the program: it
  records, in order, the values of \<open>epoch*len(X_train) + i + 1\<close> at which line 139,
  \<open>self._update_parameters()\<close>, ran. What \<open>fit\<close> prints is not modelled.
\<close>

record fit_state =
  fs_self :: network
  fs_i :: "nat option"
  aggregated_train_loss :: real
  num_train_correct :: nat
  aggregated_val_loss :: real
  num_val_correct :: nat
  val_correct :: "nat list"
  update_log :: "int list"

text \<open>The body of the training loop, lines 118 to 139, for sample \<open>i\<close> of epoch \<open>epoch\<close>;
  \<open>n\<close> is \<open>len(X_train)\<close>.\<close>

definition train_sample :: "int \<Rightarrow> nat \<Rightarrow> nat \<Rightarrow> vec \<times> vec \<Rightarrow> fit_state \<Rightarrow> error + fit_state"
  where
  "train_sample epoch n i Xy s =
     (case net_forward_pass (fs_self s) (fst Xy) of Inl e \<Rightarrow> Inl e | Inr (net1, y_hat) \<Rightarrow>
      (case np_argmax y_hat of Inl e \<Rightarrow> Inl e | Inr k \<Rightarrow>
       (case net_backward_pass net1 (loss_gradient (loss_function net1) y_hat (snd Xy)) of
          Inl e \<Rightarrow> Inl e
        | Inr net2 \<Rightarrow>
          (let s' = s\<lparr>fs_i := Some i,
                     aggregated_train_loss :=
                       add_loss net1 y_hat (snd Xy) (aggregated_train_loss s),
                     num_train_correct :=
                       (if (replicate (length y_hat) 0)[k := 1] = snd Xy
                        then num_train_correct s + 1 else num_train_correct s)\<rparr>;
               counter = epoch * int n + int i + 1
           in if batch_size net2 = 0 then Inl ZeroDivisionError
              else if counter mod batch_size net2 = 0 then
                (case net_update_parameters net2 of Inl e \<Rightarrow> Inl e
                 | Inr net3 \<Rightarrow>
                     Inr (s'\<lparr>fs_self := net3, update_log := update_log s @ [counter]\<rparr>))
              else Inr (s'\<lparr>fs_self := net2\<rparr>)))))"

fun train_loop :: "int \<Rightarrow> nat \<Rightarrow> nat \<Rightarrow> (vec \<times> vec) list \<Rightarrow> fit_state \<Rightarrow> error + fit_state"
  where
  "train_loop epoch n i [] s = Inr s"
| "train_loop epoch n i (Xy # rest) s =
     (case train_sample epoch n i Xy s of Inl e \<Rightarrow> Inl e
      | Inr s' \<Rightarrow> train_loop epoch n (Suc i) rest s')"

text \<open>The body of the validation loop, lines 156 to 168. \<open>val_correct\<close> is the dict with the
  keys 0 to \<open>len(y_val[0]) - 1\<close>; a key outside raises \<open>KeyError\<close>.\<close>

definition val_sample :: "nat \<Rightarrow> vec \<times> vec \<Rightarrow> fit_state \<Rightarrow> error + fit_state" where
  "val_sample i Xy s =
     (case net_forward_pass (fs_self s) (fst Xy) of Inl e \<Rightarrow> Inl e | Inr (net1, y_hat) \<Rightarrow>
      (case np_argmax y_hat of Inl e \<Rightarrow> Inl e | Inr k \<Rightarrow>
       (let s' = s\<lparr>fs_self := net1, fs_i := Some i,
                  aggregated_val_loss := add_loss net1 y_hat (snd Xy) (aggregated_val_loss s)\<rparr>
        in if (replicate (length y_hat) 0)[k := 1] = snd Xy then
             (if k < length (val_correct s) then
                Inr (s'\<lparr>num_val_correct := num_val_correct s + 1,
                        val_correct := (val_correct s)[k := val_correct s ! k + 1]\<rparr>)
              else Inl KeyError)
           else Inr s')))"

fun val_loop :: "nat \<Rightarrow> (vec \<times> vec) list \<Rightarrow> fit_state \<Rightarrow> error + fit_state" where
  "val_loop i [] s = Inr s"
| "val_loop i (Xy # rest) s =
     (case val_sample i Xy s of Inl e \<Rightarrow> Inl e | Inr s' \<Rightarrow> val_loop (Suc i) rest s')"

text \<open>
  \<open>record_train\<close> and \<open>record_val\<close>: lines 142 to 145 and 171 to 174. \<open>i\<close> is read after
  the loop, so an empty loop leaves the value of the loop before, or raises when there
  was none.
\<close>

definition record_train :: "int \<Rightarrow> fit_state \<Rightarrow> error + fit_state" where
  "record_train epoch s =
     (case fs_i s of None \<Rightarrow> Inl UnboundLocalError | Some i \<Rightarrow>
        Inr (s\<lparr>fs_self := (fs_self s)
              \<lparr>train_loss := train_loss (fs_self s) @
                  [(epoch, aggregated_train_loss s / (real i + 1))],
               train_accuracy := train_accuracy (fs_self s) @
                  [(epoch, real (num_train_correct s) / (real i + 1))]\<rparr>\<rparr>))"

definition record_val :: "int \<Rightarrow> fit_state \<Rightarrow> error + fit_state" where
  "record_val epoch s =
     (case fs_i s of None \<Rightarrow> Inl UnboundLocalError | Some i \<Rightarrow>
        Inr (s\<lparr>fs_self := (fs_self s)
              \<lparr>val_loss := val_loss (fs_self s) @
                  [(epoch, aggregated_val_loss s / (real i + 1))],
               val_accuracy := val_accuracy (fs_self s) @
                  [(epoch, real (num_val_correct s) / (real i + 1))]\<rparr>\<rparr>))"

text \<open>The validation part of an epoch, lines 151 to 174.\<close>

definition validate :: "vec list \<Rightarrow> vec list \<Rightarrow> int \<Rightarrow> fit_state \<Rightarrow> error + fit_state" where
  "validate X_val y_val epoch s =
     (case y_val of [] \<Rightarrow> Inl IndexError | y0 # ys \<Rightarrow>
        (case val_loop 0 (zip X_val y_val)
                (s\<lparr>val_correct := replicate (length y0) 0,
                   aggregated_val_loss := 0, num_val_correct := 0\<rparr>) of
           Inl e \<Rightarrow> Inl e
         | Inr s' \<Rightarrow> record_val epoch s'))"

text \<open>The training part of an epoch, lines 115 to 145.\<close>

definition train_epoch :: "vec list \<Rightarrow> vec list \<Rightarrow> int \<Rightarrow> fit_state \<Rightarrow> error + fit_state" where
  "train_epoch X_train y_train epoch s =
     (case train_loop epoch (length X_train) 0 (zip X_train y_train)
             (s\<lparr>aggregated_train_loss := 0, num_train_correct := 0\<rparr>) of
        Inl e \<Rightarrow> Inl e
      | Inr s' \<Rightarrow> record_train epoch s')"

text \<open>One iteration of the loop over the epochs. \<open>val\<close> is the validation set when
  \<open>is_validating\<close> holds and \<open>None\<close> otherwise.\<close>

definition fit_epoch ::
  "(vec list \<times> vec list) option \<Rightarrow> vec list \<Rightarrow> vec list \<Rightarrow> int \<Rightarrow> fit_state \<Rightarrow> error + fit_state"
  where
  "fit_epoch val X_train y_train epoch s =
     (case train_epoch X_train y_train epoch s of Inl e \<Rightarrow> Inl e | Inr s' \<Rightarrow>
        (case val of None \<Rightarrow> Inr s' | Some (X_val, y_val) \<Rightarrow> validate X_val y_val epoch s'))"

fun fit_epochs ::
  "(vec list \<times> vec list) option \<Rightarrow> vec list \<Rightarrow> vec list \<Rightarrow> int list \<Rightarrow> fit_state \<Rightarrow> error + fit_state"
  where
  "fit_epochs val X_train y_train [] s = Inr s"
| "fit_epochs val X_train y_train (epoch # es) s =
     (case fit_epoch val X_train y_train epoch s of Inl e \<Rightarrow> Inl e
      | Inr s' \<Rightarrow> fit_epochs val X_train y_train es s')"

text \<open>\<open>is_validating = X_val is not None and y_val is not None\<close>.\<close>

fun validation_set :: "vec list option \<Rightarrow> vec list option \<Rightarrow> (vec list \<times> vec list) option" where
  "validation_set (Some X_val) (Some y_val) = Some (X_val, y_val)"
| "validation_set _ _ = None"

text \<open>
  \<open>Network.fit\<close>. \<open>range(epochs)\<close> is the list of the epochs from 0; the state returned is
  the one at the end of the call, with \<open>self\<close> in \<open>fs_self\<close>. The conversion of the four
  histories to numpy arrays in the last lines keeps their entries.
\<close>

definition fit ::
  "network \<Rightarrow> vec list \<Rightarrow> vec list \<Rightarrow> vec list option \<Rightarrow> vec list option \<Rightarrow> int \<Rightarrow> error + fit_state"
  where
  "fit net X_train y_train X_val y_val epochs =
     fit_epochs (validation_set X_val y_val) X_train y_train (map int [0..<nat epochs])
       \<lparr>fs_self = net\<lparr>train_loss := [], train_accuracy := [], val_loss := [], val_accuracy := []\<rparr>,
        fs_i = None, aggregated_train_loss = 0, num_train_correct = 0,
        aggregated_val_loss = 0, num_val_correct = 0, val_correct = [], update_log = []\<rparr>"

section \<open>Definitions for the statements\<close>

text \<open>
  What the specification says \<open>HiddenLayer.backward_pass\<close> returns, written from its
  words and not from the code: the local derivative is a diagonal matrix built from what
  the forward call stored, the derivative of the activation at the pre-activation point,
  and the result is \<open>upstream . (local_derivative . W.T)\<close>. \<open>claimed_downstream_gradient\<close>
  takes the diagonal as an argument; the two readings of the sentence give it as the
  derivative at the pre-activation point \<open>input . W + b\<close>
  (\<open>claimed_local_derivative\<close>) and as \<open>activation.gradient\<close> of the stored output
  (\<open>claimed_local_derivative_of_output\<close>).
\<close>

definition claimed_local_derivative :: "hidden_layer \<Rightarrow> error + vec" where
  "claimed_local_derivative l =
     (case h_input l of None \<Rightarrow> Inl AttributeError | Some X \<Rightarrow>
     (case np_dot_vm (h_size l) X (h_W l) of Inl e \<Rightarrow> Inl e | Inr XW \<Rightarrow>
        Inr (map (act_gradient (h_activation l)) (vec_add XW (h_b l)))))"

definition claimed_local_derivative_of_output :: "hidden_layer \<Rightarrow> error + vec" where
  "claimed_local_derivative_of_output l =
     (case h_output l of None \<Rightarrow> Inl AttributeError
      | Some out \<Rightarrow> Inr (map (act_gradient (h_activation l)) out))"

definition claimed_downstream_gradient :: "hidden_layer \<Rightarrow> error + vec \<Rightarrow> vec \<Rightarrow> error + vec"
  where
  "claimed_downstream_gradient l local_derivative upstream_gradient =
     (case local_derivative of Inl e \<Rightarrow> Inl e | Inr dv \<Rightarrow>
     (case np_dot_mT (length dv) (h_size l) (np_diag_v dv) (h_W l) of Inl e \<Rightarrow> Inl e
      | Inr P \<Rightarrow> np_dot_vm (length (h_W l)) upstream_gradient P))"

text \<open>
  Example layers: a hidden layer with one input and one neuron, as \<open>__init__\<close> builds it
  with W = [[1]] and b = [0]; the same layer after \<open>forward_pass([1])\<close>; and after a
  \<open>backward_pass([2])\<close> as well.
\<close>

definition ex_hidden :: hidden_layer where
  "ex_hidden = \<lparr>h_size = 1, h_W = [[1]], h_b = [0], h_learning_rate = 1 / 2,
     h_activation = Relu, h_W_gradients = [], h_b_gradients = [],
     h_input = None, h_output = None\<rparr>"

definition ex_hidden_fwd :: hidden_layer where
  "ex_hidden_fwd = ex_hidden\<lparr>h_input := Some [1], h_output := Some [1]\<rparr>"

definition ex_hidden_acc :: hidden_layer where
  "ex_hidden_acc = ex_hidden_fwd\<lparr>h_W_gradients := [[[2]]], h_b_gradients := [[1]]\<rparr>"

definition ex_softmax :: softmax_layer where
  "ex_softmax = \<lparr>s_size = 2, s_input = None, s_output = None\<rparr>"

definition ex_softmax_out :: softmax_layer where
  "ex_softmax_out = ex_softmax\<lparr>s_output := Some [1 / 2, 1 / 2]\<rparr>"

text \<open>
  Views of a layer used in the statements: the lengths of the two gradient buffers of a
  hidden layer (\<open>bufs\<close>), its weights and biases (\<open>params\<close>), and all four
  (\<open>trainable\<close>); \<open>None\<close> for a layer of another class.
\<close>

definition bufs :: "layer \<Rightarrow> (nat \<times> nat) option" where
  "bufs l = (case l of HiddenLayer h \<Rightarrow> Some (length (h_W_gradients h), length (h_b_gradients h))
             | _ \<Rightarrow> None)"

definition trainable :: "layer \<Rightarrow> (mat \<times> vec \<times> mat list \<times> vec list) option" where
  "trainable l = (case l of HiddenLayer h \<Rightarrow> Some (h_W h, h_b h, h_W_gradients h, h_b_gradients h)
                  | _ \<Rightarrow> None)"

definition params :: "layer \<Rightarrow> (mat \<times> vec) option" where
  "params l = (case l of HiddenLayer h \<Rightarrow> Some (h_W h, h_b h) | _ \<Rightarrow> None)"

text \<open>
  The length of a gradient buffer after the samples with the counter values \<open>cs\<close>: a
  sample appends one gradient, and a counter divisible by the batch size empties the
  buffer afterwards.
\<close>

definition buf_step :: "int \<Rightarrow> int \<Rightarrow> nat \<Rightarrow> nat" where
  "buf_step bs c a = (if c mod bs = 0 then 0 else Suc a)"

definition buf_track :: "int \<Rightarrow> int list \<Rightarrow> nat \<times> nat \<Rightarrow> nat \<times> nat" where
  "buf_track bs cs = map_prod (fold (buf_step bs) cs) (fold (buf_step bs) cs)"

text \<open>
  \<open>evolves cs s s'\<close>: from \<open>s\<close> to \<open>s'\<close> the batch size stayed, the log grew by the
  counters of \<open>cs\<close> that the batch size divides, and the buffers grew as \<open>buf_track\<close>
  says.
\<close>

definition evolves :: "int list \<Rightarrow> fit_state \<Rightarrow> fit_state \<Rightarrow> bool" where
  "evolves cs s s' \<longleftrightarrow>
     batch_size (fs_self s') = batch_size (fs_self s) \<and>
     update_log s' = update_log s @ filter (\<lambda>c. c mod batch_size (fs_self s) = 0) cs \<and>
     map bufs (layers (fs_self s')) =
       map (map_option (buf_track (batch_size (fs_self s)) cs) \<circ> bufs) (layers (fs_self s))"

text \<open>
  \<open>hist_grows te ve net net'\<close>: from \<open>net\<close> to \<open>net'\<close> the two training histories grew by
  entries for the epochs \<open>te\<close> and the two validation histories by entries for the epochs
  \<open>ve\<close>. \<open>counters n k epoch\<close>: the values of \<open>epoch*len(X_train) + i + 1\<close> for the \<open>k\<close>
  samples of an epoch, \<open>n\<close> being \<open>len(X_train)\<close>.
\<close>

definition hist_grows :: "int list \<Rightarrow> int list \<Rightarrow> network \<Rightarrow> network \<Rightarrow> bool" where
  "hist_grows te ve net net' \<longleftrightarrow>
     map fst (train_loss net') = map fst (train_loss net) @ te \<and>
     map fst (train_accuracy net') = map fst (train_accuracy net) @ te \<and>
     map fst (val_loss net') = map fst (val_loss net) @ ve \<and>
     map fst (val_accuracy net') = map fst (val_accuracy net) @ ve"

definition counters :: "nat \<Rightarrow> nat \<Rightarrow> int \<Rightarrow> int list" where
  "counters n k epoch = map (\<lambda>i. epoch * int n + int i + 1) [0..<k]"

text \<open>
  The three methods \<open>fit\<close> calls on the network, as operations, and a sequence of them
  run one after the other. \<open>pending k ops\<close> counts the backward passes of \<open>ops\<close> since the
  last update, starting from \<open>k\<close> when there was none.
\<close>

datatype net_op = Forward vec | Backward vec | Update

fun run_op :: "network \<Rightarrow> net_op \<Rightarrow> error + network" where
  "run_op net (Forward X) =
     (case net_forward_pass net X of Inl e \<Rightarrow> Inl e | Inr (net', y) \<Rightarrow> Inr net')"
| "run_op net (Backward J) = net_backward_pass net J"
| "run_op net Update = net_update_parameters net"

fun run_ops :: "network \<Rightarrow> net_op list \<Rightarrow> error + network" where
  "run_ops net [] = Inr net"
| "run_ops net (op # ops) =
     (case run_op net op of Inl e \<Rightarrow> Inl e | Inr net' \<Rightarrow> run_ops net' ops)"

fun pending :: "nat \<Rightarrow> net_op list \<Rightarrow> nat" where
  "pending k [] = k"
| "pending k (Forward X # ops) = pending k ops"
| "pending k (Backward J # ops) = pending (Suc k) ops"
| "pending k (Update # ops) = pending 0 ops"

text \<open>
  What the specification says about the parameter updates of \<open>fit\<close>, written from its
  words and not from the code: one counter runs over all the samples of the call, the
  first sample having the counter 1; every sample goes forward through the network and
  the gradient of the loss goes backward; and exactly when the counter is a multiple of
  the batch size, \<open>update_parameters\<close> runs on every hidden layer
  (\<open>update_every_hidden\<close>). \<open>scheduled_run counter samples net\<close> is the network after the
  samples, \<open>counter\<close> being the counter of the first of them. Epochs do not occur in it.
\<close>

fun collect_results :: "(error + 'a) list \<Rightarrow> error + 'a list" where
  "collect_results [] = Inr []"
| "collect_results (Inl e # rs) = Inl e"
| "collect_results (Inr x # rs) =
     (case collect_results rs of Inl e \<Rightarrow> Inl e | Inr xs \<Rightarrow> Inr (x # xs))"

definition update_every_hidden :: "layer list \<Rightarrow> error + layer list" where
  "update_every_hidden ls =
     collect_results
       (map (\<lambda>l. case l of HiddenLayer h \<Rightarrow> map_sum id HiddenLayer (update_parameters h)
                  | _ \<Rightarrow> Inr l) ls)"

fun scheduled_run :: "int \<Rightarrow> (vec \<times> vec) list \<Rightarrow> network \<Rightarrow> error + network" where
  "scheduled_run counter [] net = Inr net"
| "scheduled_run counter (Xy # samples) net =
     (case net_forward_pass net (fst Xy) of Inl e \<Rightarrow> Inl e | Inr (net1, y_hat) \<Rightarrow>
     (case net_backward_pass net1 (loss_gradient (loss_function net1) y_hat (snd Xy)) of
        Inl e \<Rightarrow> Inl e
      | Inr net2 \<Rightarrow>
          if counter mod batch_size net2 = 0 then
            (case update_every_hidden (layers net2) of Inl e \<Rightarrow> Inl e
             | Inr ls \<Rightarrow> scheduled_run (counter + 1) samples (net2\<lparr>layers := ls\<rparr>))
          else scheduled_run (counter + 1) samples net2))"

text \<open>
  \<open>forget_io\<close> drops the input and output a layer stored in its last forward pass.
  \<open>in_step s net\<close>: the network of the state \<open>s\<close> of \<open>fit\<close> and the network \<open>net\<close> have
  the same layers up to what they stored in a forward pass, the same loss and the same
  batch size.
\<close>

definition forget_io :: "layer \<Rightarrow> layer" where
  "forget_io l = (case l of InputLayer n \<Rightarrow> InputLayer n
     | HiddenLayer h \<Rightarrow> HiddenLayer (h\<lparr>h_input := None, h_output := None\<rparr>)
     | SoftmaxLayer sl \<Rightarrow> SoftmaxLayer (sl\<lparr>s_input := None, s_output := None\<rparr>))"

definition in_step :: "fit_state \<Rightarrow> network \<Rightarrow> bool" where
  "in_step s net \<longleftrightarrow>
     map forget_io (layers (fs_self s)) = map forget_io (layers net) \<and>
     loss_function (fs_self s) = loss_function net \<and>
     batch_size (fs_self s) = batch_size net"

text \<open>
  An example network: an input layer, the hidden layer \<open>ex_hidden\<close> and a softmax layer
  of one neuron each, batch size 4, no regularization, and an example loss (always 0,
  with the gradient \<open>y_hat - y\<close>). \<open>ex_state net\<close> is a state of \<open>fit\<close> before the first
  epoch.
\<close>

definition ex_loss :: loss where
  "ex_loss = \<lparr>loss_call = (\<lambda>y_hat y. 0), loss_gradient = (\<lambda>y_hat y. vec_sub y_hat y)\<rparr>"

definition ex_net :: network where
  "ex_net = \<lparr>layers = [InputLayer 1, HiddenLayer ex_hidden,
                SoftmaxLayer \<lparr>s_size = 1, s_input = None, s_output = None\<rparr>],
     loss_function = ex_loss, learning_rate = 1 / 2, batch_size = 4, wreg = 0, wrt = None,
     train_loss = [], val_loss = [], train_accuracy = [], val_accuracy = []\<rparr>"

definition ex_state :: "network \<Rightarrow> fit_state" where
  "ex_state net = \<lparr>fs_self = net, fs_i = None, aggregated_train_loss = 0,
     num_train_correct = 0, aggregated_val_loss = 0, num_val_correct = 0, val_correct = [],
     update_log = []\<rparr>"

text \<open>
  A network whose gradients are not zero: an input layer, a hidden layer of two neurons
  with W = [[-1, -1]] and b = [0, 0], and a softmax layer of two neurons; batch size 4
  and the example loss. On the sample ([1], [1, 0]) the hidden layer returns [0, 0], the
  softmax layer [1/2, 1/2], and \<open>backward_pass\<close> appends [[0, 1/4]] to \<open>W_gradients\<close> and
  [0, 1] to \<open>b_gradients\<close>.
\<close>

definition ex_hidden2 :: hidden_layer where
  "ex_hidden2 = \<lparr>h_size = 2, h_W = [[- 1, - 1]], h_b = [0, 0], h_learning_rate = 1 / 2,
     h_activation = Relu, h_W_gradients = [], h_b_gradients = [],
     h_input = None, h_output = None\<rparr>"

definition ex_net2 :: network where
  "ex_net2 = \<lparr>layers = [InputLayer 1, HiddenLayer ex_hidden2,
                 SoftmaxLayer \<lparr>s_size = 2, s_input = None, s_output = None\<rparr>],
     loss_function = ex_loss, learning_rate = 1 / 2, batch_size = 4, wreg = 0, wrt = None,
     train_loss = [], val_loss = [], train_accuracy = [], val_accuracy = []\<rparr>"

section \<open>Arrays: lemmas\<close>

lemma length_vec_add [simp]: "length (vec_add u v) = min (length u) (length v)"
  by (simp add: vec_add_def)

lemma length_vec_sub [simp]: "length (vec_sub u v) = min (length u) (length v)"
  by (simp add: vec_sub_def)

lemma length_vec_scale [simp]: "length (vec_scale c v) = length v"
  by (simp add: vec_scale_def)

lemma length_rows_comb:
  "list_all (\<lambda>r. length r = n) A \<Longrightarrow> length (rows_comb n x A) = n"
  by (induction n x A rule: rows_comb.induct) simp_all

lemma rows_comb_nth:
  "length x = length A \<Longrightarrow> list_all (\<lambda>r. length r = n) A \<Longrightarrow> j < n \<Longrightarrow>
   rows_comb n x A ! j = (\<Sum>i<length x. x ! i * A ! i ! j)"
proof (induction n x A rule: rows_comb.induct)
  case (1 n a x r A)
  then have len: "length (rows_comb n x A) = n" "length r = n"
    by (simp_all add: length_rows_comb)
  have "rows_comb n (a # x) (r # A) ! j = a * r ! j + rows_comb n x A ! j"
    using 1 len by (simp add: vec_add_def vec_scale_def)
  also have "\<dots> = a * r ! j + (\<Sum>i<length x. x ! i * A ! i ! j)"
    using 1 by simp
  also have "\<dots> = (\<Sum>i<Suc (length x). (a # x) ! i * (r # A) ! i ! j)"
    by (subst sum.lessThan_Suc_shift) simp
  finally show ?case by simp
qed simp_all

lemma foldl_vec_add_length:
  "same_len g gs \<Longrightarrow> length (foldl vec_add g gs) = length g"
proof (induction gs arbitrary: g)
  case (Cons h gs)
  have "same_len (vec_add g h) gs"
    using Cons.prems by (induction gs) simp_all
  with Cons show ?case by simp
qed simp

lemma same_len_cong: "length g' = length g \<Longrightarrow> same_len g' gs = same_len g gs"
  by (induction gs) simp_all

lemma foldl_vec_add_nth:
  "same_len g gs \<Longrightarrow> j < length g \<Longrightarrow>
   foldl vec_add g gs ! j = g ! j + (\<Sum>h\<leftarrow>gs. h ! j)"
proof (induction gs arbitrary: g)
  case (Cons h gs)
  have sl: "same_len (vec_add g h) gs"
    using Cons.prems(1) same_len_cong[of "vec_add g h" g gs] by simp
  have "foldl vec_add (vec_add g h) gs ! j = vec_add g h ! j + (\<Sum>h\<leftarrow>gs. h ! j)"
    using Cons.IH[OF sl] Cons.prems by simp
  moreover have "vec_add g h ! j = g ! j + h ! j"
    using Cons.prems by (simp add: vec_add_def)
  ultimately show ?case by simp
qed simp

lemma map_length_eqD:
  assumes "map length A = map length B"
  shows "length A = length B" and "i < length A \<Longrightarrow> length (A ! i) = length (B ! i)"
proof -
  show l: "length A = length B" using assms by (rule map_eq_imp_length_eq)
  assume i: "i < length A"
  have "map length A ! i = map length B ! i" by (simp only: assms)
  then show "length (A ! i) = length (B ! i)" using i l by simp
qed

lemma map_length_mat_add:
  "map length H = map length G \<Longrightarrow> map length (mat_add G H) = map length G"
proof (induction G arbitrary: H)
  case (Cons r G)
  then show ?case by (cases H) (simp_all add: mat_add_def)
qed (simp add: mat_add_def)

lemma same_shape_cong: "map length G' = map length G \<Longrightarrow> same_shape G' Gs = same_shape G Gs"
  by (induction Gs) simp_all

lemma foldl_mat_add_shape:
  "same_shape G Gs \<Longrightarrow> map length (foldl mat_add G Gs) = map length G"
proof (induction Gs arbitrary: G)
  case (Cons H Gs)
  have ml: "map length (mat_add G H) = map length G"
    using Cons.prems by (simp add: map_length_mat_add)
  then have "same_shape (mat_add G H) Gs"
    using Cons.prems same_shape_cong[of "mat_add G H" G Gs] by simp
  with Cons.IH ml show ?case by simp
qed simp

lemma mat_add_nth:
  "map length H = map length G \<Longrightarrow> i < length G \<Longrightarrow> j < length (G ! i) \<Longrightarrow>
   mat_add G H ! i ! j = G ! i ! j + H ! i ! j"
proof -
  assume a: "map length H = map length G" "i < length G" "j < length (G ! i)"
  have l: "length H = length G" using a(1) by (rule map_length_eqD)
  have "length (H ! i) = length (G ! i)" using map_length_eqD(2)[OF a(1)] a(2) l by simp
  then show ?thesis using a(2,3) l by (simp add: mat_add_def vec_add_def)
qed

lemma foldl_mat_add_nth:
  "same_shape G Gs \<Longrightarrow> i < length G \<Longrightarrow> j < length (G ! i) \<Longrightarrow>
   foldl mat_add G Gs ! i ! j = G ! i ! j + (\<Sum>H\<leftarrow>Gs. H ! i ! j)"
proof (induction Gs arbitrary: G)
  case (Cons H Gs)
  have ml: "map length (mat_add G H) = map length G"
    using Cons.prems by (simp add: map_length_mat_add)
  then have ss: "same_shape (mat_add G H) Gs"
    using Cons.prems same_shape_cong[of "mat_add G H" G Gs] by simp
  have li: "length (mat_add G H) = length G" using ml by (rule map_length_eqD)
  have lj: "length (mat_add G H ! i) = length (G ! i)"
    using map_length_eqD(2)[OF ml] li Cons.prems(2) by simp
  have "foldl mat_add (mat_add G H) Gs ! i ! j = mat_add G H ! i ! j + (\<Sum>H\<leftarrow>Gs. H ! i ! j)"
    using Cons.IH[OF ss] li lj Cons.prems by simp
  then show ?case using Cons.prems by (simp add: mat_add_nth)
qed simp

lemma is_mat_map_length: "is_mat m n A \<longleftrightarrow> map length A = replicate m n"
proof (induction A arbitrary: m)
  case Nil
  show ?case by (auto simp: is_mat_def)
next
  case (Cons r A)
  show ?case using Cons[of "m - 1"] by (cases m) (auto simp: is_mat_def)
qed

lemma same_shape_is_mat:
  "is_mat m n G \<Longrightarrow> list_all (is_mat m n) Gs \<Longrightarrow> same_shape G Gs"
  by (induction Gs) (simp_all add: is_mat_map_length)

lemma same_len_all:
  "list_all (\<lambda>h. length h = length g) gs \<Longrightarrow> same_len g gs"
  by (induction gs) simp_all

lemma isub_mat_entries:
  assumes "is_mat m n A" and "np_sum_mats Gs = Inr S" and "list_all (is_mat m n) Gs"
  shows "\<exists>A'. isub_mat A c S = Inr A' \<and> is_mat m n A' \<and>
           (\<forall>i<m. \<forall>j<n. A' ! i ! j = A ! i ! j - c * (\<Sum>G\<leftarrow>Gs. G ! i ! j))"
proof (cases Gs)
  case Nil
  then have "S = None" using assms(2) by simp
  then have "isub_mat A c S = Inr A" by (simp add: isub_mat_def)
  then show ?thesis using assms(1) Nil by simp
next
  case (Cons G Gs')
  have G: "is_mat m n G" and Gs': "list_all (is_mat m n) Gs'"
    using assms(3) Cons by simp_all
  have ss: "same_shape G Gs'" using G Gs' by (rule same_shape_is_mat)
  then have S: "S = Some (foldl mat_add G Gs')" using assms(2) Cons by simp
  let ?B = "foldl mat_add G Gs'"
  have shB: "map length ?B = map length A"
    using foldl_mat_add_shape[OF ss] G assms(1) by (simp add: is_mat_map_length)
  have eq: "isub_mat A c S = Inr (mat_sub A (mat_scale c ?B))"
    using S shB by (simp add: isub_mat_def)
  have lA: "length A = m" using assms(1) by (simp add: is_mat_def)
  have lB: "length ?B = m" using map_length_eqD(1)[OF shB] lA by simp
  have rowA: "\<And>i. i < m \<Longrightarrow> length (A ! i) = n"
    using assms(1) by (simp add: is_mat_def list_all_length)
  have rowB: "length (?B ! i) = n" if "i < m" for i
    using map_length_eqD(2)[OF shB, of i] that lB rowA by simp
  have rowG: "\<And>i. i < m \<Longrightarrow> length (G ! i) = n"
    using G by (simp add: is_mat_def list_all_length)
  have lG: "length G = m" using G by (simp add: is_mat_def)
  have shape: "is_mat m n (mat_sub A (mat_scale c ?B))"
    using lA lB rowA rowB
    by (simp add: is_mat_def list_all_length mat_sub_def mat_scale_def)
  have ent: "\<forall>i<m. \<forall>j<n. mat_sub A (mat_scale c ?B) ! i ! j
               = A ! i ! j - c * (\<Sum>G\<leftarrow>Gs. G ! i ! j)"
  proof (intro allI impI)
    fix i j assume ij: "i < m" "j < n"
    have "?B ! i ! j = G ! i ! j + (\<Sum>H\<leftarrow>Gs'. H ! i ! j)"
      using foldl_mat_add_nth[OF ss] ij lG rowG by simp
    then show "mat_sub A (mat_scale c ?B) ! i ! j = A ! i ! j - c * (\<Sum>G\<leftarrow>Gs. G ! i ! j)"
      using ij lA lB rowA rowB Cons
      by (simp add: mat_sub_def mat_scale_def vec_sub_def vec_scale_def)
  qed
  show ?thesis using eq shape ent by simp
qed

lemma np_sum_mats_ok:
  "list_all (is_mat m n) Gs \<Longrightarrow> \<exists>S. np_sum_mats Gs = Inr S"
proof (cases Gs)
  case (Cons G Gs')
  assume "list_all (is_mat m n) Gs"
  then have "same_shape G Gs'" using Cons same_shape_is_mat[of m n G Gs'] by simp
  then show ?thesis using Cons by simp
qed simp

lemma np_sum_vecs_ok:
  "list_all (\<lambda>g. length g = n) gs \<Longrightarrow> \<exists>s. np_sum_vecs gs = Inr s"
proof (cases gs)
  case (Cons g gs')
  assume "list_all (\<lambda>g. length g = n) gs"
  then have "same_len g gs'" using Cons by (intro same_len_all) (simp add: list_all_iff)
  then show ?thesis using Cons by simp
qed simp

lemma isub_vec_entries:
  assumes "length a = n" and "np_sum_vecs gs = Inr s" and "list_all (\<lambda>g. length g = n) gs"
  shows "\<exists>a'. isub_vec a c s = Inr a' \<and> length a' = n \<and>
           (\<forall>j<n. a' ! j = a ! j - c * (\<Sum>g\<leftarrow>gs. g ! j))"
proof (cases gs)
  case Nil
  then have "s = None" using assms(2) by simp
  then have "isub_vec a c s = Inr a" by (simp add: isub_vec_def)
  then show ?thesis using assms(1) Nil by simp
next
  case (Cons g gs')
  have sl: "same_len g gs'"
    using assms(3) Cons by (intro same_len_all) (simp add: list_all_iff)
  then have s: "s = Some (foldl vec_add g gs')" using assms(2) Cons by simp
  have lg: "length g = n" using assms(3) Cons by simp
  have lB: "length (foldl vec_add g gs') = n"
    using foldl_vec_add_length[OF sl] lg by simp
  have eq: "isub_vec a c s = Inr (vec_sub a (vec_scale c (foldl vec_add g gs')))"
    using s lB assms(1) by (simp add: isub_vec_def)
  have "\<forall>j<n. vec_sub a (vec_scale c (foldl vec_add g gs')) ! j = a ! j - c * (\<Sum>g\<leftarrow>gs. g ! j)"
    using foldl_vec_add_nth[OF sl] lg lB assms(1) Cons
    by (simp add: vec_sub_def vec_scale_def)
  then show ?thesis using eq lB assms(1) by simp
qed

lemma np_max_Max: "X \<noteq> [] \<Longrightarrow> np_max X = Inr (Max (set X))"
proof (cases X)
  case (Cons x xs)
  have "foldl max x xs = fold max xs x"
    by (simp add: foldl_conv_fold max.commute)
  also have "\<dots> = Max (set (x # xs))" by (rule Max.set_eq_fold[symmetric])
  finally show ?thesis using Cons by simp
qed simp

lemma sum_list_divide_const: "sum_list (map (\<lambda>a. a / c) xs) = sum_list xs / (c::real)"
  by (induction xs) (simp_all add: add_divide_distrib)

lemma sum_list_exp_pos: "X \<noteq> [] \<Longrightarrow> 0 < (\<Sum>x\<leftarrow>X. exp (x - (m::real)))"
proof (induction X)
  case (Cons x X)
  have "0 \<le> (\<Sum>x\<leftarrow>X. exp (x - m))" by (rule sum_list_nonneg) auto
  then show ?case by (simp add: add_pos_nonneg)
qed simp

lemma is_mat_rows: "is_mat m n A \<Longrightarrow> list_all (\<lambda>r. length r = n) A"
  by (simp add: is_mat_def)

lemma length_np_diag_v: "length (np_diag_v v) = length v"
  by (simp add: np_diag_v_def)

lemma length_np_diag_m: "length (np_diag_m A) = length A"
  by (simp add: np_diag_m_def)

section \<open>Layers: lemmas\<close>

lemma softmax_jacobian_nth:
  "i < length out \<Longrightarrow> j < length out \<Longrightarrow>
   softmax_jacobian out ! i ! j = out ! i * ((if i = j then 1 else 0) - out ! j)"
  by (simp add: softmax_jacobian_def power2_eq_square algebra_simps)

lemma softmax_jacobian_shape: "is_mat (length out) (length out) (softmax_jacobian out)"
  by (simp add: softmax_jacobian_def is_mat_def list_all_iff)

lemma hidden_forward_frame:
  "hidden_forward l X = Inr (l', y) \<Longrightarrow>
   l' = l\<lparr>h_input := Some X, h_output := Some y\<rparr>"
  by (auto simp: hidden_forward_def Let_def split: sum.splits if_splits)

lemma hidden_backward_frame:
  "hidden_backward l g = Inr (l', y) \<Longrightarrow>
   \<exists>GW Gb. l' = l\<lparr>h_W_gradients := h_W_gradients l @ [GW], h_b_gradients := h_b_gradients l @ [Gb]\<rparr>"
  by (auto simp: hidden_backward_def Let_def split: sum.splits option.splits)

lemma update_parameters_frame:
  "update_parameters h = Inr h' \<Longrightarrow> h_W_gradients h' = [] \<and> h_b_gradients h' = []"
  by (auto simp: update_parameters_def split: sum.splits)

text \<open>Every method of a hidden layer that returns keeps \<open>wf_hidden\<close>.\<close>

lemma wf_hidden_forward:
  assumes "wf_hidden l" and "hidden_forward l X = Inr (l', y)"
  shows "wf_hidden l' \<and> length y = h_size l"
proof -
  have l': "l' = l\<lparr>h_input := Some X, h_output := Some y\<rparr>"
    using assms(2) by (rule hidden_forward_frame)
  have lx: "length X = length (h_W l)"
    using assms(2) by (auto simp: hidden_forward_def np_dot_vm_def split: if_splits sum.splits)
  have rows: "list_all (\<lambda>r. length r = h_size l) (h_W l)" and b: "length (h_b l) = h_size l"
    using assms(1) by (simp_all add: wf_hidden_def is_mat_def)
  have "y = map (act_call (h_activation l)) (vec_add (rows_comb (h_size l) X (h_W l)) (h_b l))"
    using assms(2)
    by (auto simp: hidden_forward_def np_dot_vm_def Let_def split: if_splits sum.splits)
  then have "length y = h_size l" using length_rows_comb[OF rows, of X] b by simp
  moreover have "wf_hidden l'" using assms(1) lx unfolding l' by (simp add: wf_hidden_def)
  ultimately show ?thesis by simp
qed

lemma wf_hidden_backward:
  assumes "wf_hidden l" and "hidden_backward l g = Inr (l', d)"
  shows "wf_hidden l' \<and> length d = length (h_W l)"
proof -
  let ?J = "map (map (act_gradient (h_activation l))) (np_diag_v g)"
  have lg: "length g = h_size l"
    using assms(2)
    by (auto simp: hidden_backward_def np_dot_mT_def Let_def split: if_splits sum.splits)
  obtain inp where inp: "h_input l = Some inp"
    using assms(2)
    by (auto simp: hidden_backward_def Let_def split: option.splits sum.splits)
  have li: "length inp = length (h_W l)" using assms(1) inp by (simp add: wf_hidden_def)
  let ?GW = "bcast_mul g (np_outer inp (np_diag_m ?J))" and ?Gb = "np_diag_m ?J"
  let ?P = "map (\<lambda>r. map (\<lambda>w. dot r w) (h_W l)) ?J"
  have res: "l' = l\<lparr>h_W_gradients := h_W_gradients l @ [?GW],
                     h_b_gradients := h_b_gradients l @ [?Gb]\<rparr>"
    and d: "d = rows_comb (length (h_W l)) g ?P"
    using assms(2) inp lg
    by (auto simp: hidden_backward_def np_dot_mT_def np_dot_vm_def Let_def split: if_splits)
  have gw: "is_mat (length (h_W l)) (h_size l) ?GW"
    using li lg
    by (simp add: is_mat_def bcast_mul_def np_outer_def list_all_iff length_np_diag_v
        length_np_diag_m)
  have gb: "length ?Gb = h_size l"
    using lg by (simp add: length_np_diag_v length_np_diag_m)
  have wf: "wf_hidden l'"
    using assms(1) gw gb inp li unfolding res by (simp add: wf_hidden_def)
  have "list_all (\<lambda>r. length r = length (h_W l)) ?P" by (simp add: list_all_iff)
  then have "length d = length (h_W l)" unfolding d by (rule length_rows_comb)
  with wf show ?thesis by simp
qed

lemma wf_hidden_update:
  assumes "wf_hidden l" and "update_parameters l = Inr l'"
  shows "wf_hidden l'"
proof -
  let ?m = "length (h_W l)" and ?n = "h_size l" and ?c = "h_learning_rate l"
  have W: "is_mat ?m ?n (h_W l)" and b: "length (h_b l) = ?n"
    and GW: "list_all (is_mat ?m ?n) (h_W_gradients l)"
    and Gb: "list_all (\<lambda>g. length g = ?n) (h_b_gradients l)"
    and inp: "case h_input l of None \<Rightarrow> True | Some X \<Rightarrow> length X = ?m"
    using assms(1) by (simp_all add: wf_hidden_def)
  obtain SW where SW: "np_sum_mats (h_W_gradients l) = Inr SW"
    using np_sum_mats_ok[OF GW] by blast
  obtain Sb where Sb: "np_sum_vecs (h_b_gradients l) = Inr Sb"
    using np_sum_vecs_ok[OF Gb] by blast
  obtain W' where W': "isub_mat (h_W l) ?c SW = Inr W'" "is_mat ?m ?n W'"
    using isub_mat_entries[OF W SW GW, of ?c] by blast
  obtain b' where b': "isub_vec (h_b l) ?c Sb = Inr b'" "length b' = ?n"
    using isub_vec_entries[OF b Sb Gb, of ?c] by blast
  have l': "l' = l\<lparr>h_W := W', h_W_gradients := [], h_b := b', h_b_gradients := []\<rparr>"
    using assms(2) SW Sb W'(1) b'(1) by (simp add: update_parameters_def)
  have "length W' = ?m" using W'(2) by (simp add: is_mat_def)
  then show ?thesis using W'(2) b'(2) inp unfolding l'
    by (simp add: wf_hidden_def split: option.splits)
qed

lemma wf_ex_hidden: "wf_hidden ex_hidden"
  by (simp add: wf_hidden_def is_mat_def ex_hidden_def)

text \<open>The gradient \<open>backward_pass\<close> returns is the same whatever the forward call stored.\<close>

lemma hidden_backward_ignores_forward:
  "map_sum id snd (hidden_backward (l\<lparr>h_input := Some X, h_output := out\<rparr>) g) =
   map_sum id snd (hidden_backward (l\<lparr>h_input := Some X', h_output := out'\<rparr>) g)"
  by (simp add: hidden_backward_def Let_def split: sum.splits)

section \<open>Network: lemmas\<close>

lemma bufs_trainable:
  "bufs l = map_option (\<lambda>(W, b, gW, gb). (length gW, length gb)) (trainable l)"
  by (simp add: bufs_def trainable_def split: layer.splits)

lemma params_trainable:
  "params l = map_option (\<lambda>(W, b, gW, gb). (W, b)) (trainable l)"
  by (simp add: params_def trainable_def split: layer.splits)

lemma map_bufs_trainable:
  "map trainable ls' = map trainable ls \<Longrightarrow> map bufs ls' = map bufs ls"
proof -
  assume a: "map trainable ls' = map trainable ls"
  have "map bufs ls' = map (map_option (\<lambda>(W, b, gW, gb). (length gW, length gb))) (map trainable ls')"
    by (simp add: bufs_trainable)
  also have "\<dots> = map (map_option (\<lambda>(W, b, gW, gb). (length gW, length gb))) (map trainable ls)"
    by (simp only: a)
  also have "\<dots> = map bufs ls" by (simp add: bufs_trainable)
  finally show ?thesis .
qed

lemma forward_pass_trainable:
  "forward_pass l X = Inr (l', y) \<Longrightarrow> trainable l' = trainable l"
  by (cases l)
     (auto simp: trainable_def softmax_forward_def Let_def
           dest!: hidden_forward_frame split: sum.splits)

lemma forward_layers_trainable:
  "forward_layers ls X = Inr (ls', y) \<Longrightarrow> map trainable ls' = map trainable ls"
proof (induction ls arbitrary: X ls' y)
  case (Cons l ls)
  obtain l' out' where l': "forward_pass l X = Inr (l', out')"
    using Cons.prems by (auto split: sum.splits)
  obtain ls'' where ls'': "forward_layers ls out' = Inr (ls'', y)" and eq: "ls' = l' # ls''"
    using Cons.prems l' by (auto split: sum.splits)
  show ?case
    using forward_pass_trainable[OF l'] Cons.IH[OF ls''] eq by simp
qed simp

lemma backward_pass_bufs:
  "backward_pass l g = Inr (l', y) \<Longrightarrow>
   bufs l' = map_option (map_prod Suc Suc) (bufs l) \<and> params l' = params l"
  by (cases l)
     (auto simp: bufs_def params_def softmax_backward_def
           dest!: hidden_backward_frame split: sum.splits option.splits)

lemma backward_layers_bufs:
  "backward_layers ls g = Inr (ls', y) \<Longrightarrow>
   map bufs ls' = map (map_option (map_prod Suc Suc) \<circ> bufs) ls \<and> map params ls' = map params ls"
proof (induction ls arbitrary: g ls' y)
  case (Cons l ls)
  obtain l' g' where l': "backward_pass l g = Inr (l', g')"
    using Cons.prems by (auto split: sum.splits)
  obtain ls'' where ls'': "backward_layers ls g' = Inr (ls'', y)" and eq: "ls' = l' # ls''"
    using Cons.prems l' by (auto split: sum.splits)
  show ?case
    using backward_pass_bufs[OF l'] Cons.IH[OF ls''] eq by simp
qed simp

lemma update_layers_bufs:
  "update_layers ls = Inr ls' \<Longrightarrow>
   map bufs ls' = map (map_option (map_prod (\<lambda>a. 0) (\<lambda>a. 0)) \<circ> bufs) ls"
proof (induction ls arbitrary: ls' rule: update_layers.induct)
  case (2 h ls)
  obtain h' where h': "update_parameters h = Inr h'"
    using "2.prems" by (auto split: sum.splits)
  obtain ls'' where ls'': "update_layers ls = Inr ls''" and eq: "ls' = HiddenLayer h' # ls''"
    using "2.prems" h' by (auto split: sum.splits)
  show ?case
    using update_parameters_frame[OF h'] "2.IH"[OF h' ls''] eq by (simp add: bufs_def)
qed (auto simp: bufs_def split: sum.splits)

lemma net_forward_pass_eq:
  assumes "net_forward_pass net X = Inr (net', y)"
  shows "\<exists>ls. net' = net\<lparr>layers := ls\<rparr>"
    and "map trainable (layers net') = map trainable (layers net)"
  using assms
  by (auto simp: net_forward_pass_def split: sum.splits dest: forward_layers_trainable)

lemma net_backward_pass_eq:
  assumes "net_backward_pass net J = Inr net'"
  shows "\<exists>ls. net' = net\<lparr>layers := ls\<rparr>"
    and "map bufs (layers net') = map (map_option (map_prod Suc Suc) \<circ> bufs) (layers net)"
    and "map params (layers net') = map params (layers net)"
proof -
  obtain ls J' where bl: "backward_layers (rev (layers net)) J = Inr (ls, J')"
    and n': "net' = net\<lparr>layers := rev ls\<rparr>"
    using assms by (auto simp: net_backward_pass_def split: sum.splits)
  show "\<exists>ls. net' = net\<lparr>layers := ls\<rparr>" using n' by blast
  have b: "map bufs ls = map (map_option (map_prod Suc Suc) \<circ> bufs) (rev (layers net))"
    and p: "map params ls = map params (rev (layers net))"
    using backward_layers_bufs[OF bl] by simp_all
  have "map bufs (rev ls) = rev (map bufs ls)" by (simp add: rev_map)
  also have "\<dots> = map (map_option (map_prod Suc Suc) \<circ> bufs) (layers net)"
    by (simp only: b rev_map[symmetric] rev_rev_ident)
  finally show "map bufs (layers net') = map (map_option (map_prod Suc Suc) \<circ> bufs) (layers net)"
    using n' by simp
  have "map params (rev ls) = rev (map params ls)" by (simp add: rev_map)
  also have "\<dots> = map params (layers net)"
    by (simp only: p rev_map[symmetric] rev_rev_ident)
  finally show "map params (layers net') = map params (layers net)" using n' by simp
qed

lemma net_update_parameters_eq:
  assumes "net_update_parameters net = Inr net'"
  shows "\<exists>ls. net' = net\<lparr>layers := ls\<rparr>"
    and "map bufs (layers net') = map (map_option (map_prod (\<lambda>a. 0) (\<lambda>a. 0)) \<circ> bufs) (layers net)"
  using assms
  by (auto simp: net_update_parameters_def split: sum.splits dest: update_layers_bufs)

lemma buf_track_Nil [simp]: "buf_track bs [] = id"
  by (simp add: buf_track_def fun_eq_iff)

lemma buf_track_append: "buf_track bs (cs @ ds) = buf_track bs ds \<circ> buf_track bs cs"
  by (simp add: buf_track_def fun_eq_iff)

lemma buf_track_single:
  "buf_track bs [c] = (if c mod bs = 0 then map_prod (\<lambda>a. 0) (\<lambda>a. 0) else map_prod Suc Suc)"
  by (auto simp: buf_track_def buf_step_def fun_eq_iff)

lemma reset_after_Suc:
  "map_prod (\<lambda>a. 0) (\<lambda>a. 0) (map_prod Suc Suc x) = map_prod (\<lambda>a. 0) (\<lambda>a. 0) x"
  by (cases x) simp

lemma evolves_refl: "evolves [] s s"
  by (simp add: evolves_def option.map_id0)

lemma evolves_trans:
  assumes "evolves cs s s'" and "evolves ds s' s''"
  shows "evolves (cs @ ds) s s''"
proof -
  have bs: "batch_size (fs_self s') = batch_size (fs_self s)"
    using assms(1) by (simp add: evolves_def)
  have 1: "batch_size (fs_self s'') = batch_size (fs_self s)"
    using assms(2) bs by (simp add: evolves_def)
  have 2: "update_log s'' =
      update_log s @ filter (\<lambda>c. c mod batch_size (fs_self s) = 0) (cs @ ds)"
    using assms bs by (simp add: evolves_def)
  have "map bufs (layers (fs_self s'')) =
      map (map_option (buf_track (batch_size (fs_self s)) ds) \<circ> bufs) (layers (fs_self s'))"
    using assms(2) bs by (simp add: evolves_def)
  also have "\<dots> = map (map_option (buf_track (batch_size (fs_self s)) ds))
                      (map bufs (layers (fs_self s')))"
    by simp
  also have "map bufs (layers (fs_self s')) =
      map (map_option (buf_track (batch_size (fs_self s)) cs) \<circ> bufs) (layers (fs_self s))"
    using assms(1) by (simp add: evolves_def)
  finally have 3: "map bufs (layers (fs_self s'')) =
      map (map_option (buf_track (batch_size (fs_self s)) (cs @ ds)) \<circ> bufs) (layers (fs_self s))"
    by (simp add: buf_track_append option.map_comp comp_def)
  show ?thesis using 1 2 3 by (simp add: evolves_def)
qed

lemma train_sample_frame:
  assumes "train_sample epoch n i Xy s = Inr s'"
  shows "\<exists>ls. fs_self s' = (fs_self s)\<lparr>layers := ls\<rparr>"
proof -
  obtain net1 y_hat where f: "net_forward_pass (fs_self s) (fst Xy) = Inr (net1, y_hat)"
    using assms by (auto simp: train_sample_def split: sum.splits)
  obtain k where k: "np_argmax y_hat = Inr k"
    using assms f by (auto simp: train_sample_def split: sum.splits)
  obtain net2 where
    b: "net_backward_pass net1 (loss_gradient (loss_function net1) y_hat (snd Xy)) = Inr net2"
    using assms f k by (auto simp: train_sample_def split: sum.splits)
  obtain ls1 where ls1: "net1 = (fs_self s)\<lparr>layers := ls1\<rparr>"
    using net_forward_pass_eq(1)[OF f] by blast
  obtain ls2 where ls2: "net2 = net1\<lparr>layers := ls2\<rparr>"
    using net_backward_pass_eq(1)[OF b] by blast
  have n2: "net2 = (fs_self s)\<lparr>layers := ls2\<rparr>" using ls1 ls2 by simp
  have "fs_self s' = net2 \<or> (\<exists>net3. net_update_parameters net2 = Inr net3 \<and> fs_self s' = net3)"
    using assms f k b by (auto simp: train_sample_def Let_def split: sum.splits if_splits)
  then show ?thesis
  proof
    assume "fs_self s' = net2"
    then show ?thesis using n2 by blast
  next
    assume "\<exists>net3. net_update_parameters net2 = Inr net3 \<and> fs_self s' = net3"
    then obtain net3 where u: "net_update_parameters net2 = Inr net3" and e: "fs_self s' = net3"
      by blast
    obtain ls3 where "net3 = net2\<lparr>layers := ls3\<rparr>"
      using net_update_parameters_eq(1)[OF u] by blast
    then have "fs_self s' = (fs_self s)\<lparr>layers := ls3\<rparr>" using e n2 by simp
    then show ?thesis by blast
  qed
qed

lemma train_sample_evolves:
  assumes "train_sample epoch n i Xy s = Inr s'"
  shows "evolves [epoch * int n + int i + 1] s s'"
proof -
  let ?c = "epoch * int n + int i + 1"
  obtain net1 y_hat where f: "net_forward_pass (fs_self s) (fst Xy) = Inr (net1, y_hat)"
    using assms by (auto simp: train_sample_def split: sum.splits)
  obtain k where k: "np_argmax y_hat = Inr k"
    using assms f by (auto simp: train_sample_def split: sum.splits)
  obtain net2 where
    b: "net_backward_pass net1 (loss_gradient (loss_function net1) y_hat (snd Xy)) = Inr net2"
    using assms f k by (auto simp: train_sample_def split: sum.splits)
  obtain ls1 where ls1: "net1 = (fs_self s)\<lparr>layers := ls1\<rparr>"
    using net_forward_pass_eq(1)[OF f] by blast
  obtain ls2 where ls2: "net2 = net1\<lparr>layers := ls2\<rparr>"
    using net_backward_pass_eq(1)[OF b] by blast
  have bs2: "batch_size net2 = batch_size (fs_self s)" using ls1 ls2 by simp
  obtain ls' where "fs_self s' = (fs_self s)\<lparr>layers := ls'\<rparr>"
    using train_sample_frame[OF assms] by blast
  then have bs': "batch_size (fs_self s') = batch_size (fs_self s)" by simp
  have bufs1: "map bufs (layers net1) = map bufs (layers (fs_self s))"
    using net_forward_pass_eq(2)[OF f] by (rule map_bufs_trainable)
  have bufs2: "map bufs (layers net2) =
      map (map_option (map_prod Suc Suc) \<circ> bufs) (layers (fs_self s))"
  proof -
    have "map bufs (layers net2) = map (map_option (map_prod Suc Suc)) (map bufs (layers net1))"
      using net_backward_pass_eq(2)[OF b] by simp
    then show ?thesis by (simp add: bufs1)
  qed
  have nz: "batch_size (fs_self s) \<noteq> 0"
    using assms f k b bs2 by (auto simp: train_sample_def Let_def split: if_splits)
  show ?thesis
  proof (cases "?c mod batch_size (fs_self s) = 0")
    case True
    obtain net3 where u: "net_update_parameters net2 = Inr net3"
      and s': "fs_self s' = net3" "update_log s' = update_log s @ [?c]"
      using assms f k b bs2 nz True
      by (auto simp: train_sample_def Let_def split: sum.splits)
    have "map bufs (layers net3) =
        map (map_option (map_prod (\<lambda>a. 0) (\<lambda>a. 0))) (map bufs (layers net2))"
      using net_update_parameters_eq(2)[OF u] by simp
    then have "map bufs (layers net3) =
        map (map_option (buf_track (batch_size (fs_self s)) [?c]) \<circ> bufs) (layers (fs_self s))"
      using True
      by (simp add: bufs2 buf_track_single option.map_comp comp_def reset_after_Suc)
    then show ?thesis using s' bs' True by (simp add: evolves_def)
  next
    case False
    have s': "fs_self s' = net2" "update_log s' = update_log s"
      using assms f k b bs2 nz False
      by (auto simp: train_sample_def Let_def split: sum.splits)
    have "map bufs (layers net2) =
        map (map_option (buf_track (batch_size (fs_self s)) [?c]) \<circ> bufs) (layers (fs_self s))"
      using False by (simp add: bufs2 buf_track_single)
    then show ?thesis using s' bs' False by (simp add: evolves_def)
  qed
qed

lemma bufs_Some:
  "bufs l = Some p \<Longrightarrow> \<exists>h. l = HiddenLayer h \<and> p = (length (h_W_gradients h), length (h_b_gradients h))"
  by (cases l) (auto simp: bufs_def)

lemma bufs_pointwise:
  assumes "map bufs ls' = map (map_option (map_prod f g) \<circ> bufs) ls"
  shows "length ls' = length ls \<and>
         (\<forall>j<length ls. \<forall>h. ls ! j = HiddenLayer h \<longrightarrow>
            (\<exists>h'. ls' ! j = HiddenLayer h' \<and>
                  length (h_W_gradients h') = f (length (h_W_gradients h)) \<and>
                  length (h_b_gradients h') = g (length (h_b_gradients h))))"
proof -
  have len: "length ls' = length ls" using assms by (rule map_eq_imp_length_eq)
  have "\<exists>h'. ls' ! j = HiddenLayer h' \<and>
             length (h_W_gradients h') = f (length (h_W_gradients h)) \<and>
             length (h_b_gradients h') = g (length (h_b_gradients h))"
    if j: "j < length ls" and h: "ls ! j = HiddenLayer h" for j h
  proof -
    have "map bufs ls' ! j = map (map_option (map_prod f g) \<circ> bufs) ls ! j"
      by (simp only: assms)
    then have "bufs (ls' ! j) = map_option (map_prod f g) (bufs (ls ! j))"
      using j len by simp
    then have "bufs (ls' ! j) =
        Some (f (length (h_W_gradients h)), g (length (h_b_gradients h)))"
      using h by (simp add: bufs_def)
    then show ?thesis using bufs_Some by fastforce
  qed
  then show ?thesis using len by blast
qed

lemma map_prod_twice:
  "map_prod f g (map_prod f' g' x) = map_prod (\<lambda>a. f (f' a)) (\<lambda>a. g (g' a)) x"
  by (cases x) simp

lemma pending_Cons: "pending k (op # ops) = pending (pending k [op]) ops"
  by (cases op) simp_all

lemma run_op_bufs:
  assumes "run_op net op = Inr net'"
  shows "map bufs (layers net') =
         map (map_option (map_prod (\<lambda>a. pending a [op]) (\<lambda>a. pending a [op])) \<circ> bufs) (layers net)"
proof (cases op)
  case (Forward X)
  then obtain y where f: "net_forward_pass net X = Inr (net', y)"
    using assms by (auto split: sum.splits)
  have "map bufs (layers net') = map bufs (layers net)"
    using net_forward_pass_eq(2)[OF f] by (rule map_bufs_trainable)
  then show ?thesis using Forward by (simp add: map_prod.id option.map_id0 id_def[symmetric])
next
  case (Backward J)
  then have "net_backward_pass net J = Inr net'" using assms by simp
  then show ?thesis using net_backward_pass_eq(2) Backward by simp
next
  case Update
  then have "net_update_parameters net = Inr net'" using assms by simp
  then show ?thesis using net_update_parameters_eq(2) Update by simp
qed

lemma run_ops_bufs:
  "run_ops net ops = Inr net' \<Longrightarrow>
   map bufs (layers net') =
   map (map_option (map_prod (\<lambda>a. pending a ops) (\<lambda>a. pending a ops)) \<circ> bufs) (layers net)"
proof (induction ops arbitrary: net)
  case Nil
  then show ?case by (simp add: map_prod.id option.map_id0 id_def[symmetric])
next
  case (Cons op ops)
  obtain net1 where o: "run_op net op = Inr net1" and r: "run_ops net1 ops = Inr net'"
    using Cons.prems by (auto split: sum.splits)
  have "map bufs (layers net') =
      map (map_option (map_prod (\<lambda>a. pending a ops) (\<lambda>a. pending a ops)))
        (map bufs (layers net1))"
    using Cons.IH[OF r] by simp
  also have "map bufs (layers net1) =
      map (map_option (map_prod (\<lambda>a. pending a [op]) (\<lambda>a. pending a [op])) \<circ> bufs) (layers net)"
    by (rule run_op_bufs[OF o])
  finally have "map bufs (layers net') =
      map (map_option (map_prod (\<lambda>a. pending (pending a [op]) ops)
                                 (\<lambda>a. pending (pending a [op]) ops)) \<circ> bufs) (layers net)"
    by (simp add: option.map_comp comp_def map_prod_twice)
  then show ?case by (simp only: pending_Cons[of _ op ops])
qed

lemma update_layers_every_hidden:
  "update_layers ls = Inr ls' \<Longrightarrow>
   length ls' = length ls \<and>
   (\<forall>j<length ls. \<forall>h. ls ! j = HiddenLayer h \<longrightarrow>
      (\<exists>h'. update_parameters h = Inr h' \<and> ls' ! j = HiddenLayer h'))"
proof (induction ls arbitrary: ls')
  case Nil
  then show ?case by simp
next
  case (Cons l ls)
  show ?case
  proof (cases l)
    case (HiddenLayer h)
    obtain h' where h': "update_parameters h = Inr h'"
      using Cons.prems HiddenLayer by (auto split: sum.splits)
    obtain ls'' where ls'': "update_layers ls = Inr ls''" and eq: "ls' = HiddenLayer h' # ls''"
      using Cons.prems HiddenLayer h' by (auto split: sum.splits)
    show ?thesis
      using Cons.IH[OF ls''] h' eq HiddenLayer by (auto simp: nth_Cons split: nat.splits)
  next
    case (InputLayer n)
    obtain ls'' where ls'': "update_layers ls = Inr ls''" and eq: "ls' = l # ls''"
      using Cons.prems InputLayer by (auto split: sum.splits)
    show ?thesis
      using Cons.IH[OF ls''] eq InputLayer by (auto simp: nth_Cons split: nat.splits)
  next
    case (SoftmaxLayer sl)
    obtain ls'' where ls'': "update_layers ls = Inr ls''" and eq: "ls' = l # ls''"
      using Cons.prems SoftmaxLayer by (auto split: sum.splits)
    show ?thesis
      using Cons.IH[OF ls''] eq SoftmaxLayer by (auto simp: nth_Cons split: nat.splits)
  qed
qed

section \<open>fit: lemmas\<close>

lemma hist_grows_refl: "hist_grows [] [] net net"
  by (simp add: hist_grows_def)

lemma hist_grows_trans:
  "hist_grows te ve net net' \<Longrightarrow> hist_grows te' ve' net' net'' \<Longrightarrow>
   hist_grows (te @ te') (ve @ ve') net net''"
  by (simp add: hist_grows_def)

lemma train_loop_frame:
  "train_loop epoch n i ps s = Inr s' \<Longrightarrow> \<exists>ls. fs_self s' = (fs_self s)\<lparr>layers := ls\<rparr>"
proof (induction ps arbitrary: i s)
  case Nil
  then have "fs_self s' = (fs_self s)\<lparr>layers := layers (fs_self s)\<rparr>" by simp
  then show ?case by blast
next
  case (Cons Xy ps)
  obtain s1 where s1: "train_sample epoch n i Xy s = Inr s1"
    and rest: "train_loop epoch n (Suc i) ps s1 = Inr s'"
    using Cons.prems by (auto split: sum.splits)
  obtain ls1 where ls1: "fs_self s1 = (fs_self s)\<lparr>layers := ls1\<rparr>"
    using train_sample_frame[OF s1] by blast
  obtain ls where "fs_self s' = (fs_self s1)\<lparr>layers := ls\<rparr>"
    using Cons.IH[OF rest] by blast
  then have "fs_self s' = (fs_self s)\<lparr>layers := ls\<rparr>" using ls1 by simp
  then show ?case by blast
qed

lemma train_loop_evolves:
  "train_loop epoch n i ps s = Inr s' \<Longrightarrow>
   evolves (map (\<lambda>j. epoch * int n + int j + 1) [i..<i + length ps]) s s'"
proof (induction ps arbitrary: i s)
  case Nil
  then show ?case by (simp add: evolves_refl)
next
  case (Cons Xy ps)
  obtain s1 where s1: "train_sample epoch n i Xy s = Inr s1"
    and rest: "train_loop epoch n (Suc i) ps s1 = Inr s'"
    using Cons.prems by (auto split: sum.splits)
  have "evolves ([epoch * int n + int i + 1] @
                 map (\<lambda>j. epoch * int n + int j + 1) [Suc i..<Suc i + length ps]) s s'"
    using train_sample_evolves[OF s1] Cons.IH[OF rest] by (rule evolves_trans)
  moreover have "[i..<i + length (Xy # ps)] = i # [Suc i..<Suc i + length ps]"
    using upt_conv_Cons[of i "Suc (i + length ps)"] by (simp del: upt_Suc)
  ultimately show ?case by (simp del: upt_Suc)
qed

lemma val_sample_frame:
  assumes "val_sample i Xy s = Inr s'"
  shows "(\<exists>ls. fs_self s' = (fs_self s)\<lparr>layers := ls\<rparr>) \<and>
         map trainable (layers (fs_self s')) = map trainable (layers (fs_self s)) \<and>
         update_log s' = update_log s"
proof -
  obtain net1 y_hat where f: "net_forward_pass (fs_self s) (fst Xy) = Inr (net1, y_hat)"
    using assms by (auto simp: val_sample_def split: sum.splits)
  have "fs_self s' = net1 \<and> update_log s' = update_log s"
    using assms f by (auto simp: val_sample_def Let_def split: sum.splits if_splits)
  then show ?thesis using net_forward_pass_eq[OF f] by simp
qed

lemma val_loop_frame:
  "val_loop i ps s = Inr s' \<Longrightarrow>
   (\<exists>ls. fs_self s' = (fs_self s)\<lparr>layers := ls\<rparr>) \<and>
   map trainable (layers (fs_self s')) = map trainable (layers (fs_self s)) \<and>
   update_log s' = update_log s"
proof (induction ps arbitrary: i s)
  case Nil
  then have s': "s' = s" by simp
  have "\<exists>ls. fs_self s = (fs_self s)\<lparr>layers := ls\<rparr>"
    by (rule exI[of _ "layers (fs_self s)"]) simp
  then show ?case unfolding s' by simp
next
  case (Cons Xy ps)
  obtain s1 where s1: "val_sample i Xy s = Inr s1"
    and rest: "val_loop (Suc i) ps s1 = Inr s'"
    using Cons.prems by (auto split: sum.splits)
  obtain ls1 where ls1: "fs_self s1 = (fs_self s)\<lparr>layers := ls1\<rparr>"
    and t1: "map trainable (layers (fs_self s1)) = map trainable (layers (fs_self s))"
    and l1: "update_log s1 = update_log s"
    using val_sample_frame[OF s1] by blast
  obtain ls where ls: "fs_self s' = (fs_self s1)\<lparr>layers := ls\<rparr>"
    and t: "map trainable (layers (fs_self s')) = map trainable (layers (fs_self s1))"
    and l: "update_log s' = update_log s1"
    using Cons.IH[OF rest] by blast
  have "fs_self s' = (fs_self s)\<lparr>layers := ls\<rparr>" using ls ls1 by simp
  then show ?case using t t1 l l1 by auto
qed

lemma record_train_eq:
  assumes "record_train epoch s = Inr s'"
  shows "layers (fs_self s') = layers (fs_self s)"
    and "batch_size (fs_self s') = batch_size (fs_self s)"
    and "update_log s' = update_log s"
    and "hist_grows [epoch] [] (fs_self s) (fs_self s')"
  using assms by (auto simp: record_train_def hist_grows_def split: option.splits)

lemma record_val_eq:
  assumes "record_val epoch s = Inr s'"
  shows "layers (fs_self s') = layers (fs_self s)"
    and "batch_size (fs_self s') = batch_size (fs_self s)"
    and "update_log s' = update_log s"
    and "hist_grows [] [epoch] (fs_self s) (fs_self s')"
  using assms by (auto simp: record_val_def hist_grows_def split: option.splits)

lemma evolves_same:
  assumes "batch_size (fs_self s') = batch_size (fs_self s)"
    and "update_log s' = update_log s"
    and "map bufs (layers (fs_self s')) = map bufs (layers (fs_self s))"
  shows "evolves [] s s'"
  using assms by (simp add: evolves_def option.map_id0)

lemma train_epoch_effect:
  assumes "train_epoch X_train y_train epoch s = Inr s'"
  shows "evolves (counters (length X_train) (length (zip X_train y_train)) epoch) s s'"
    and "hist_grows [epoch] [] (fs_self s) (fs_self s')"
    and "\<exists>s1. train_loop epoch (length X_train) 0 (zip X_train y_train)
                (s\<lparr>aggregated_train_loss := 0, num_train_correct := 0\<rparr>) = Inr s1 \<and>
              layers (fs_self s') = layers (fs_self s1) \<and> update_log s' = update_log s1"
proof -
  let ?s0 = "s\<lparr>aggregated_train_loss := 0, num_train_correct := 0\<rparr>"
  obtain s1 where tl: "train_loop epoch (length X_train) 0 (zip X_train y_train) ?s0 = Inr s1"
    and rt: "record_train epoch s1 = Inr s'"
    using assms by (auto simp: train_epoch_def split: sum.splits)
  have e0: "evolves [] s ?s0" by (rule evolves_same) simp_all
  have e1: "evolves (counters (length X_train) (length (zip X_train y_train)) epoch) ?s0 s1"
    using train_loop_evolves[OF tl] by (simp add: counters_def)
  have e2: "evolves [] s1 s'"
    using record_train_eq[OF rt] by (intro evolves_same) simp_all
  have "evolves ([] @ counters (length X_train) (length (zip X_train y_train)) epoch @ []) s s'"
    using e0 e1 e2 by (blast intro: evolves_trans)
  then show "evolves (counters (length X_train) (length (zip X_train y_train)) epoch) s s'"
    by simp
  obtain ls where "fs_self s1 = (fs_self ?s0)\<lparr>layers := ls\<rparr>"
    using train_loop_frame[OF tl] by blast
  then have "hist_grows [] [] (fs_self s) (fs_self s1)"
    by (simp add: hist_grows_def)
  then have "hist_grows ([] @ [epoch]) ([] @ []) (fs_self s) (fs_self s')"
    using record_train_eq(4)[OF rt] by (rule hist_grows_trans)
  then show "hist_grows [epoch] [] (fs_self s) (fs_self s')" by simp
  show "\<exists>s1. train_loop epoch (length X_train) 0 (zip X_train y_train) ?s0 = Inr s1 \<and>
              layers (fs_self s') = layers (fs_self s1) \<and> update_log s' = update_log s1"
    using tl record_train_eq[OF rt] by blast
qed

lemma validate_effect:
  assumes "validate X_val y_val epoch s = Inr s'"
  shows "map trainable (layers (fs_self s')) = map trainable (layers (fs_self s))"
    and "update_log s' = update_log s"
    and "batch_size (fs_self s') = batch_size (fs_self s)"
    and "hist_grows [] [epoch] (fs_self s) (fs_self s')"
proof -
  obtain y0 ys where y: "y_val = y0 # ys"
    using assms by (auto simp: validate_def split: list.splits)
  let ?s0 = "s\<lparr>val_correct := replicate (length y0) 0, aggregated_val_loss := 0,
               num_val_correct := 0\<rparr>"
  obtain s1 where vl: "val_loop 0 (zip X_val y_val) ?s0 = Inr s1"
    and rv: "record_val epoch s1 = Inr s'"
    using assms y by (auto simp: validate_def split: sum.splits)
  obtain ls where ls: "fs_self s1 = (fs_self ?s0)\<lparr>layers := ls\<rparr>"
    and t: "map trainable (layers (fs_self s1)) = map trainable (layers (fs_self ?s0))"
    and l: "update_log s1 = update_log ?s0"
    using val_loop_frame[OF vl] by blast
  show "map trainable (layers (fs_self s')) = map trainable (layers (fs_self s))"
    using t record_val_eq(1)[OF rv] by simp
  show "update_log s' = update_log s" using l record_val_eq(3)[OF rv] by simp
  show "batch_size (fs_self s') = batch_size (fs_self s)"
    using ls record_val_eq(2)[OF rv] by simp
  have "hist_grows [] [] (fs_self s) (fs_self s1)" using ls by (simp add: hist_grows_def)
  then have "hist_grows ([] @ []) ([] @ [epoch]) (fs_self s) (fs_self s')"
    using record_val_eq(4)[OF rv] by (rule hist_grows_trans)
  then show "hist_grows [] [epoch] (fs_self s) (fs_self s')" by simp
qed

lemma fit_epoch_effect:
  assumes "fit_epoch val X_train y_train epoch s = Inr s'"
  shows "evolves (counters (length X_train) (length (zip X_train y_train)) epoch) s s'"
    and "hist_grows [epoch] (case val of None \<Rightarrow> [] | Some v \<Rightarrow> [epoch]) (fs_self s) (fs_self s')"
proof -
  let ?cs = "counters (length X_train) (length (zip X_train y_train)) epoch"
  obtain s1 where te: "train_epoch X_train y_train epoch s = Inr s1"
    using assms by (auto simp: fit_epoch_def split: sum.splits)
  have e1: "evolves ?cs s s1" and h1: "hist_grows [epoch] [] (fs_self s) (fs_self s1)"
    using train_epoch_effect[OF te] by simp_all
  show "evolves ?cs s s'"
  proof (cases val)
    case None
    then show ?thesis using assms te e1 by (simp add: fit_epoch_def)
  next
    case (Some v)
    obtain X_val y_val where v: "v = (X_val, y_val)" by (cases v)
    have va: "validate X_val y_val epoch s1 = Inr s'"
      using assms te Some v by (simp add: fit_epoch_def)
    have "evolves [] s1 s'"
      using validate_effect[OF va] by (intro evolves_same map_bufs_trainable) simp_all
    then have "evolves (?cs @ []) s s'" using e1 by (blast intro: evolves_trans)
    then show ?thesis by simp
  qed
  show "hist_grows [epoch] (case val of None \<Rightarrow> [] | Some v \<Rightarrow> [epoch]) (fs_self s) (fs_self s')"
  proof (cases val)
    case None
    then show ?thesis using assms te h1 by (simp add: fit_epoch_def)
  next
    case (Some v)
    obtain X_val y_val where v: "v = (X_val, y_val)" by (cases v)
    have va: "validate X_val y_val epoch s1 = Inr s'"
      using assms te Some v by (simp add: fit_epoch_def)
    have "hist_grows ([epoch] @ []) ([] @ [epoch]) (fs_self s) (fs_self s')"
      using h1 validate_effect(4)[OF va] by (rule hist_grows_trans)
    then show ?thesis using Some by simp
  qed
qed

lemma fit_epochs_effect:
  "fit_epochs val X_train y_train es s = Inr s' \<Longrightarrow>
   evolves (concat (map (counters (length X_train) (length (zip X_train y_train))) es)) s s' \<and>
   hist_grows es (case val of None \<Rightarrow> [] | Some v \<Rightarrow> es) (fs_self s) (fs_self s')"
proof (induction es arbitrary: s)
  case Nil
  then show ?case by (simp add: evolves_refl hist_grows_refl split: option.splits)
next
  case (Cons epoch es)
  let ?c = "counters (length X_train) (length (zip X_train y_train))"
  obtain s1 where fe: "fit_epoch val X_train y_train epoch s = Inr s1"
    and rest: "fit_epochs val X_train y_train es s1 = Inr s'"
    using Cons.prems by (auto split: sum.splits)
  have e: "evolves (?c epoch @ concat (map ?c es)) s s'"
    using fit_epoch_effect(1)[OF fe] Cons.IH[OF rest] by (blast intro: evolves_trans)
  have "hist_grows ([epoch] @ es)
          ((case val of None \<Rightarrow> [] | Some v \<Rightarrow> [epoch]) @ (case val of None \<Rightarrow> [] | Some v \<Rightarrow> es))
          (fs_self s) (fs_self s')"
    using fit_epoch_effect(2)[OF fe] Cons.IH[OF rest] by (blast intro: hist_grows_trans)
  then have "hist_grows (epoch # es) (case val of None \<Rightarrow> [] | Some v \<Rightarrow> epoch # es)
          (fs_self s) (fs_self s')"
    by (cases val) simp_all
  then show ?case using e by simp
qed

lemma counters_shift: "counters n n (int e) = map int [Suc (e * n)..<n + Suc (e * n)]"
proof -
  have "[Suc (e * n)..<n + Suc (e * n)] = map (\<lambda>i. i + Suc (e * n)) [0..<n]"
    by (rule map_add_upt[symmetric])
  then have "map int [Suc (e * n)..<n + Suc (e * n)] =
             map (\<lambda>i. int (i + Suc (e * n))) [0..<n]"
    by (simp only: map_map comp_def)
  also have "\<dots> = counters n n (int e)"
    unfolding counters_def by (rule map_cong) (simp_all add: algebra_simps)
  finally show ?thesis by simp
qed

lemma counters_run:
  "concat (map (counters n n) (map int [0..<E])) = map int [1..<Suc (E * n)]"
proof (induction E)
  case (Suc E)
  have "[1..<Suc (E * n) + n] = [1..<Suc (E * n)] @ [Suc (E * n)..<Suc (E * n) + n]"
    by (rule upt_add_eq_append) simp
  moreover have "Suc (Suc E * n) = Suc (E * n) + n" "n + Suc (E * n) = Suc (E * n) + n"
    by simp_all
  ultimately have "map int [1..<Suc (Suc E * n)] =
      map int [1..<Suc (E * n)] @ map int [Suc (E * n)..<n + Suc (E * n)]"
    by (simp only: map_append)
  moreover have "concat (map (counters n n) (map int [0..<Suc E])) =
      concat (map (counters n n) (map int [0..<E])) @ counters n n (int E)"
    by simp
  ultimately show ?case using Suc by (simp only: counters_shift)
qed simp

lemma fold_buf_step_run:
  assumes "0 < b"
  shows "fold (buf_step (int b)) (map int [1..<Suc N]) a = (if N < b then a + N else N mod b)"
proof (induction N)
  case 0
  then show ?case using assms by simp
next
  case (Suc N)
  have m: "(int (Suc N) mod int b = 0) = (Suc N mod b = 0)"
    by (simp only: zmod_int[symmetric] of_nat_eq_0_iff)
  have "[1..<Suc (Suc N)] = [1..<Suc N] @ [Suc N]" by simp
  then have "fold (buf_step (int b)) (map int [1..<Suc (Suc N)]) a =
        buf_step (int b) (int (Suc N)) (fold (buf_step (int b)) (map int [1..<Suc N]) a)"
    by (simp only: map_append fold_append comp_def list.map fold_simps)
  also have "\<dots> = buf_step (int b) (int (Suc N)) (if N < b then a + N else N mod b)"
    by (simp only: Suc)
  also have "\<dots> = (if Suc N < b then a + Suc N else Suc N mod b)"
  proof (cases "Suc N mod b = 0")
    case True
    have "\<not> Suc N < b"
    proof
      assume "Suc N < b"
      then have "Suc N mod b = Suc N" by simp
      with True show False by simp
    qed
    moreover have "int (Suc N) mod int b = 0" using True m by simp
    ultimately show ?thesis using True by (simp add: buf_step_def)
  next
    case False
    show ?thesis
    proof (cases "Suc N < b")
      case True
      then have "N < b" by simp
      moreover have "int (Suc N) mod int b \<noteq> 0" using False m by simp
      ultimately show ?thesis using True by (simp add: buf_step_def)
    next
      case ge: False
      have nl: "\<not> N < b"
      proof
        assume "N < b"
        then have "Suc N = b" using ge by simp
        then have "Suc N mod b = 0" by simp
        with False show False by simp
      qed
      have "Suc (N mod b) = Suc N mod b"
        using False by (simp add: mod_Suc split: if_splits)
      moreover have "int (Suc N) mod int b \<noteq> 0" using False m by simp
      ultimately show ?thesis using ge nl by (simp add: buf_step_def)
    qed
  qed
  finally show ?case .
qed

lemma fit_effect:
  assumes "fit net X_train y_train X_val y_val epochs = Inr s"
  shows "update_log s = filter (\<lambda>c. c mod batch_size net = 0)
           (concat (map (counters (length X_train) (length (zip X_train y_train)))
                        (map int [0..<nat epochs])))"
    and "map bufs (layers (fs_self s)) =
         map (map_option (buf_track (batch_size net)
           (concat (map (counters (length X_train) (length (zip X_train y_train)))
                        (map int [0..<nat epochs])))) \<circ> bufs) (layers net)"
    and "map fst (train_loss (fs_self s)) = map int [0..<nat epochs]"
    and "map fst (train_accuracy (fs_self s)) = map int [0..<nat epochs]"
    and "map fst (val_loss (fs_self s)) =
           (case validation_set X_val y_val of None \<Rightarrow> [] | Some v \<Rightarrow> map int [0..<nat epochs])"
    and "map fst (val_accuracy (fs_self s)) =
           (case validation_set X_val y_val of None \<Rightarrow> [] | Some v \<Rightarrow> map int [0..<nat epochs])"
proof -
  let ?s0 = "\<lparr>fs_self = net\<lparr>train_loss := [], train_accuracy := [], val_loss := [],
                              val_accuracy := []\<rparr>,
              fs_i = None, aggregated_train_loss = 0, num_train_correct = 0,
              aggregated_val_loss = 0, num_val_correct = 0, val_correct = [], update_log = []\<rparr>"
  let ?cs = "concat (map (counters (length X_train) (length (zip X_train y_train)))
                        (map int [0..<nat epochs]))"
  have fe: "fit_epochs (validation_set X_val y_val) X_train y_train (map int [0..<nat epochs]) ?s0
            = Inr s"
    using assms by (simp add: fit_def)
  have e: "evolves ?cs ?s0 s"
    and h: "hist_grows (map int [0..<nat epochs])
              (case validation_set X_val y_val of None \<Rightarrow> [] | Some v \<Rightarrow> map int [0..<nat epochs])
              (fs_self ?s0) (fs_self s)"
    using fit_epochs_effect[OF fe] by simp_all
  show "update_log s = filter (\<lambda>c. c mod batch_size net = 0) ?cs"
    using e by (simp add: evolves_def)
  show "map bufs (layers (fs_self s)) =
         map (map_option (buf_track (batch_size net) ?cs) \<circ> bufs) (layers net)"
    using e by (simp add: evolves_def)
  show "map fst (train_loss (fs_self s)) = map int [0..<nat epochs]"
    and "map fst (train_accuracy (fs_self s)) = map int [0..<nat epochs]"
    and "map fst (val_loss (fs_self s)) =
           (case validation_set X_val y_val of None \<Rightarrow> [] | Some v \<Rightarrow> map int [0..<nat epochs])"
    and "map fst (val_accuracy (fs_self s)) =
           (case validation_set X_val y_val of None \<Rightarrow> [] | Some v \<Rightarrow> map int [0..<nat epochs])"
    using h by (simp_all add: hist_grows_def)
qed

lemma run_counters:
  assumes "length y_train = length X_train"
  shows "concat (map (counters (length X_train) (length (zip X_train y_train)))
                     (map int [0..<E])) = map int [1..<Suc (E * length X_train)]"
proof -
  have "length (zip X_train y_train) = length X_train" using assms by simp
  then show ?thesis by (simp only: counters_run)
qed

lemma multiple_le_floor:
  assumes "0 < (b::nat)" and "k \<le> N" and "k mod b = 0"
  shows "int k \<le> int N - int (N mod b)"
proof -
  obtain q where q: "k = b * q" using assms(3) by (auto simp: mod_eq_0_iff_dvd dvd_def)
  have "q = k div b" using q assms(1) by simp
  also have "\<dots> \<le> N div b" using assms(2) by (rule div_le_mono)
  finally have "b * q \<le> b * (N div b)" by simp
  also have "\<dots> = N - N mod b" by (simp add: minus_mod_eq_mult_div)
  finally have "k \<le> N - N mod b" using q by simp
  then have "k + N mod b \<le> N" using mod_less_eq_dividend[of N b] by linarith
  then have "int k + int (N mod b) \<le> int N" by (simp only: of_nat_add[symmetric] of_nat_le_iff)
  then show ?thesis by simp
qed

text \<open>The training loop and the validation loop of \<open>fit\<close> are sequences of the three operations.\<close>

lemma run_ops_append:
  "run_ops net (a @ b) = (case run_ops net a of Inl e \<Rightarrow> Inl e | Inr net' \<Rightarrow> run_ops net' b)"
  by (induction a arbitrary: net) (auto split: sum.splits)

lemma run_ops_trans:
  "run_ops net a = Inr net' \<Longrightarrow> run_ops net' b = Inr net'' \<Longrightarrow> run_ops net (a @ b) = Inr net''"
  by (simp add: run_ops_append)

lemma train_sample_by_run_ops:
  assumes "train_sample epoch n i Xy s = Inr s'"
  shows "\<exists>ops. run_ops (fs_self s) ops = Inr (fs_self s')"
proof -
  obtain net1 y_hat where f: "net_forward_pass (fs_self s) (fst Xy) = Inr (net1, y_hat)"
    using assms by (auto simp: train_sample_def split: sum.splits)
  obtain k where k: "np_argmax y_hat = Inr k"
    using assms f by (auto simp: train_sample_def split: sum.splits)
  let ?g = "loss_gradient (loss_function net1) y_hat (snd Xy)"
  obtain net2 where b: "net_backward_pass net1 ?g = Inr net2"
    using assms f k by (auto simp: train_sample_def split: sum.splits)
  have r2: "run_ops (fs_self s) [Forward (fst Xy), Backward ?g] = Inr net2"
    using f b by simp
  have "fs_self s' = net2 \<or> (\<exists>net3. net_update_parameters net2 = Inr net3 \<and> fs_self s' = net3)"
    using assms f k b by (auto simp: train_sample_def Let_def split: sum.splits if_splits)
  then show ?thesis
  proof
    assume "fs_self s' = net2"
    then show ?thesis using r2 by metis
  next
    assume "\<exists>net3. net_update_parameters net2 = Inr net3 \<and> fs_self s' = net3"
    then obtain net3 where u: "net_update_parameters net2 = Inr net3" and e: "fs_self s' = net3"
      by blast
    have "run_ops (fs_self s) [Forward (fst Xy), Backward ?g, Update] = Inr (fs_self s')"
      using f b u e by simp
    then show ?thesis by blast
  qed
qed

lemma train_loop_by_run_ops:
  "train_loop epoch n i ps s = Inr s' \<Longrightarrow> \<exists>ops. run_ops (fs_self s) ops = Inr (fs_self s')"
proof (induction ps arbitrary: i s)
  case Nil
  then have "run_ops (fs_self s) [] = Inr (fs_self s')" by simp
  then show ?case by blast
next
  case (Cons Xy ps)
  obtain s1 where s1: "train_sample epoch n i Xy s = Inr s1"
    and rest: "train_loop epoch n (Suc i) ps s1 = Inr s'"
    using Cons.prems by (auto split: sum.splits)
  obtain a where a: "run_ops (fs_self s) a = Inr (fs_self s1)"
    using train_sample_by_run_ops[OF s1] by blast
  obtain b where b: "run_ops (fs_self s1) b = Inr (fs_self s')"
    using Cons.IH[OF rest] by blast
  show ?case using run_ops_trans[OF a b] by blast
qed

lemma val_loop_by_run_ops:
  "val_loop i ps s = Inr s' \<Longrightarrow> \<exists>ops. run_ops (fs_self s) ops = Inr (fs_self s')"
proof (induction ps arbitrary: i s)
  case Nil
  then have "run_ops (fs_self s) [] = Inr (fs_self s')" by simp
  then show ?case by blast
next
  case (Cons Xy ps)
  obtain s1 where s1: "val_sample i Xy s = Inr s1"
    and rest: "val_loop (Suc i) ps s1 = Inr s'"
    using Cons.prems by (auto split: sum.splits)
  obtain net1 y_hat where f: "net_forward_pass (fs_self s) (fst Xy) = Inr (net1, y_hat)"
    using s1 by (auto simp: val_sample_def split: sum.splits)
  have "fs_self s1 = net1"
    using s1 f by (auto simp: val_sample_def Let_def split: sum.splits if_splits)
  then have a: "run_ops (fs_self s) [Forward (fst Xy)] = Inr (fs_self s1)" using f by simp
  obtain b where b: "run_ops (fs_self s1) b = Inr (fs_self s')"
    using Cons.IH[OF rest] by blast
  show ?case using run_ops_trans[OF a b] by blast
qed

text \<open>The definitions to unfold when a concrete run is evaluated.\<close>

lemmas fit_eval = fit_def fit_epoch_def train_epoch_def validate_def record_train_def
  record_val_def train_sample_def val_sample_def net_forward_pass_def net_backward_pass_def
  net_update_parameters_def add_loss_def hidden_forward_def hidden_backward_def
  softmax_forward_def softmax_backward_def softmax_jacobian_def update_parameters_def
  isub_mat_def isub_vec_def mat_sub_def mat_scale_def mat_add_def vec_sub_def vec_add_def
  vec_scale_def np_dot_vm_def np_dot_mT_def np_diag_v_def np_diag_m_def np_outer_def
  bcast_mul_def dot_def ex_net_def ex_loss_def ex_hidden_def ex_state_def Relu_def Let_def
  upt_rec eval_nat_numeral

section \<open>The update schedule: lemmas\<close>

lemma update_every_hidden_eq: "update_every_hidden ls = update_layers ls"
proof (induction ls)
  case Nil
  then show ?case by (simp add: update_every_hidden_def)
next
  case (Cons l ls)
  then show ?case
    by (cases l) (auto simp: update_every_hidden_def split: sum.splits)
qed

lemma hidden_io_cong:
  assumes "h\<lparr>h_input := None, h_output := None\<rparr> = h'\<lparr>h_input := None, h_output := None\<rparr>"
  shows "h\<lparr>h_input := a, h_output := b\<rparr> = h'\<lparr>h_input := a, h_output := b\<rparr>"
    and "h_size h = h_size h'" and "h_W h = h_W h'" and "h_b h = h_b h'"
    and "h_activation h = h_activation h'" and "h_learning_rate h = h_learning_rate h'"
    and "h_W_gradients h = h_W_gradients h'" and "h_b_gradients h = h_b_gradients h'"
  using assms by (cases h; cases h'; simp)+

lemma softmax_io_cong:
  assumes "sl\<lparr>s_input := None, s_output := None\<rparr> = sl'\<lparr>s_input := None, s_output := None\<rparr>"
  shows "sl\<lparr>s_input := a, s_output := b\<rparr> = sl'\<lparr>s_input := a, s_output := b\<rparr>"
  using assms by (cases sl; cases sl'; simp)

lemma forward_pass_forget_cong:
  assumes "forget_io l = forget_io l'"
  shows "forward_pass l X = forward_pass l' X"
proof (cases l)
  case (InputLayer n)
  then show ?thesis using assms by (cases l') (simp_all add: forget_io_def)
next
  case (HiddenLayer h)
  then obtain h' where l': "l' = HiddenLayer h'"
    using assms by (cases l') (simp_all add: forget_io_def)
  have e: "h\<lparr>h_input := None, h_output := None\<rparr> = h'\<lparr>h_input := None, h_output := None\<rparr>"
    using assms HiddenLayer l' by (simp add: forget_io_def)
  have "hidden_forward h X = hidden_forward h' X"
    using hidden_io_cong[OF e] by (simp add: hidden_forward_def Let_def split: sum.splits)
  then show ?thesis using HiddenLayer l' by simp
next
  case (SoftmaxLayer sl)
  then obtain sl' where l': "l' = SoftmaxLayer sl'"
    using assms by (cases l') (simp_all add: forget_io_def)
  have e: "sl\<lparr>s_input := None, s_output := None\<rparr> = sl'\<lparr>s_input := None, s_output := None\<rparr>"
    using assms SoftmaxLayer l' by (simp add: forget_io_def)
  have "softmax_forward sl X = softmax_forward sl' X"
    using softmax_io_cong[OF e] by (simp add: softmax_forward_def Let_def split: sum.splits)
  then show ?thesis using SoftmaxLayer l' by simp
qed

lemma forward_layers_forget_cong:
  "map forget_io ls = map forget_io ls' \<Longrightarrow> forward_layers ls X = forward_layers ls' X"
proof (induction ls arbitrary: ls' X)
  case Nil
  then show ?case by simp
next
  case (Cons l ls)
  then obtain l' ls1 where ls': "ls' = l' # ls1" and l: "forget_io l = forget_io l'"
    and r: "map forget_io ls = map forget_io ls1"
    by (cases ls') auto
  show ?case using forward_pass_forget_cong[OF l, of X] Cons.IH[OF r] ls'
    by (simp split: sum.splits)
qed

lemma forward_pass_forget:
  "forward_pass l X = Inr (l', y) \<Longrightarrow> forget_io l' = forget_io l"
  by (cases l)
     (auto simp: forget_io_def hidden_forward_def softmax_forward_def Let_def
           split: sum.splits if_splits)

lemma forward_layers_forget:
  "forward_layers ls X = Inr (ls', y) \<Longrightarrow> map forget_io ls' = map forget_io ls"
proof (induction ls arbitrary: ls' X)
  case Nil
  then show ?case by simp
next
  case (Cons l ls)
  obtain l1 y1 where f: "forward_pass l X = Inr (l1, y1)"
    using Cons.prems by (auto split: sum.splits)
  obtain ls1 where r: "forward_layers ls y1 = Inr (ls1, y)" and e: "ls' = l1 # ls1"
    using Cons.prems f by (auto split: sum.splits)
  show ?case using forward_pass_forget[OF f] Cons.IH[OF r] e by simp
qed

lemma forget_io_trainable: "forget_io l = forget_io l' \<Longrightarrow> trainable l = trainable l'"
proof (cases l)
  case (HiddenLayer h)
  assume a: "forget_io l = forget_io l'"
  then obtain h' where l': "l' = HiddenLayer h'"
    using HiddenLayer by (cases l') (simp_all add: forget_io_def)
  have e: "h\<lparr>h_input := None, h_output := None\<rparr> = h'\<lparr>h_input := None, h_output := None\<rparr>"
    using a HiddenLayer l' by (simp add: forget_io_def)
  show ?thesis using hidden_io_cong[OF e] HiddenLayer l' by (simp add: trainable_def)
qed (cases l'; simp add: forget_io_def trainable_def)+

lemma map_forget_io_trainable:
  "map forget_io ls = map forget_io ls' \<Longrightarrow> map trainable ls = map trainable ls'"
proof (induction ls arbitrary: ls')
  case Nil
  then show ?case by simp
next
  case (Cons l ls)
  then obtain l' ls1 where ls': "ls' = l' # ls1" and l: "forget_io l = forget_io l'"
    and r: "map forget_io ls = map forget_io ls1"
    by (cases ls') auto
  show ?case using forget_io_trainable[OF l] Cons.IH[OF r] ls' by simp
qed

lemma train_sample_in_step:
  assumes "train_sample epoch n i Xy s = Inr s'" and "in_step s net"
  shows "\<exists>net'. scheduled_run (epoch * int n + int i + 1) [Xy] net = Inr net' \<and> in_step s' net'"
proof -
  obtain net1 y_hat where f: "net_forward_pass (fs_self s) (fst Xy) = Inr (net1, y_hat)"
    using assms(1) by (auto simp: train_sample_def split: sum.splits)
  obtain k where k: "np_argmax y_hat = Inr k"
    using assms(1) f by (auto simp: train_sample_def split: sum.splits)
  let ?g = "loss_gradient (loss_function net1) y_hat (snd Xy)"
  obtain net2 where b: "net_backward_pass net1 ?g = Inr net2"
    using assms(1) f k by (auto simp: train_sample_def split: sum.splits)
  obtain ls1 where fl: "forward_layers (layers (fs_self s)) (fst Xy) = Inr (ls1, y_hat)"
    and n1: "net1 = (fs_self s)\<lparr>layers := ls1\<rparr>"
    using f by (auto simp: net_forward_pass_def split: sum.splits)
  have fl': "forward_layers (layers net) (fst Xy) = Inr (ls1, y_hat)"
    using fl forward_layers_forget_cong[of "layers (fs_self s)" "layers net" "fst Xy"] assms(2)
    by (simp add: in_step_def)
  let ?m1 = "net\<lparr>layers := ls1\<rparr>"
  have f': "net_forward_pass net (fst Xy) = Inr (?m1, y_hat)"
    using fl' by (simp add: net_forward_pass_def)
  have lf: "loss_function ?m1 = loss_function net1"
    using n1 assms(2) by (simp add: in_step_def)
  obtain ls2 J where bl: "backward_layers (rev ls1) ?g = Inr (ls2, J)"
    and n2: "net2 = net1\<lparr>layers := rev ls2\<rparr>"
    using b n1 by (auto simp: net_backward_pass_def split: sum.splits)
  let ?m2 = "net\<lparr>layers := rev ls2\<rparr>"
  have b': "net_backward_pass ?m1 (loss_gradient (loss_function ?m1) y_hat (snd Xy)) = Inr ?m2"
    using bl lf by (simp add: net_backward_pass_def)
  have bs: "batch_size ?m2 = batch_size net2"
    using n1 n2 assms(2) by (simp add: in_step_def)
  let ?c = "epoch * int n + int i + 1"
  show ?thesis
  proof (cases "?c mod batch_size net2 = 0")
    case False
    then have "fs_self s' = net2"
      using assms(1) f k b by (auto simp: train_sample_def Let_def split: sum.splits if_splits)
    then have "in_step s' ?m2" using n1 n2 assms(2) by (simp add: in_step_def)
    moreover have "scheduled_run ?c [Xy] net = Inr ?m2"
      using f' b' bs False by simp
    ultimately show ?thesis by blast
  next
    case True
    then obtain net3 where u: "net_update_parameters net2 = Inr net3" and e: "fs_self s' = net3"
      using assms(1) f k b by (auto simp: train_sample_def Let_def split: sum.splits if_splits)
    obtain ls3 where ul: "update_layers (rev ls2) = Inr ls3" and n3: "net3 = net2\<lparr>layers := ls3\<rparr>"
      using u n2 by (auto simp: net_update_parameters_def split: sum.splits)
    let ?m3 = "net\<lparr>layers := ls3\<rparr>"
    have "in_step s' ?m3" using e n1 n2 n3 assms(2) by (simp add: in_step_def)
    moreover have "scheduled_run ?c [Xy] net = Inr ?m3"
      using f' b' bs True ul by (simp add: update_every_hidden_eq)
    ultimately show ?thesis by blast
  qed
qed

lemma scheduled_run_append:
  "scheduled_run c (a @ b) net =
     (case scheduled_run c a net of Inl e \<Rightarrow> Inl e
      | Inr net' \<Rightarrow> scheduled_run (c + int (length a)) b net')"
proof (induction a arbitrary: c net)
  case Nil
  then show ?case by simp
next
  case (Cons Xy a)
  have "c + 1 + int (length a) = c + int (length (Xy # a))" by simp
  then show ?case using Cons.IH by (simp add: add.assoc split: sum.splits prod.splits)
qed

lemma scheduled_run_trans:
  "scheduled_run c a net = Inr net' \<Longrightarrow> scheduled_run (c + int (length a)) b net' = Inr net'' \<Longrightarrow>
   scheduled_run c (a @ b) net = Inr net''"
  by (simp add: scheduled_run_append)

lemma train_loop_in_step:
  "train_loop epoch n i ps s = Inr s' \<Longrightarrow> in_step s net \<Longrightarrow>
   \<exists>net'. scheduled_run (epoch * int n + int i + 1) ps net = Inr net' \<and> in_step s' net'"
proof (induction ps arbitrary: i s net)
  case Nil
  then show ?case by simp
next
  case (Cons Xy ps)
  obtain s1 where s1: "train_sample epoch n i Xy s = Inr s1"
    and rest: "train_loop epoch n (Suc i) ps s1 = Inr s'"
    using Cons.prems(1) by (auto split: sum.splits)
  obtain net1 where a: "scheduled_run (epoch * int n + int i + 1) [Xy] net = Inr net1"
    and i1: "in_step s1 net1"
    using train_sample_in_step[OF s1 Cons.prems(2)] by blast
  obtain net' where b: "scheduled_run (epoch * int n + int (Suc i) + 1) ps net1 = Inr net'"
    and i': "in_step s' net'"
    using Cons.IH[OF rest i1] by blast
  have "epoch * int n + int i + 1 + int (length [Xy]) = epoch * int n + int (Suc i) + 1"
    by simp
  then have "scheduled_run (epoch * int n + int i + 1) ([Xy] @ ps) net = Inr net'"
    using scheduled_run_trans[OF a, of ps net'] b by simp
  then show ?case using i' by auto
qed

lemma val_sample_in_step:
  assumes "val_sample i Xy s = Inr s'" and "in_step s net"
  shows "in_step s' net"
proof -
  obtain net1 y_hat where f: "net_forward_pass (fs_self s) (fst Xy) = Inr (net1, y_hat)"
    using assms(1) by (auto simp: val_sample_def split: sum.splits)
  have e: "fs_self s' = net1"
    using assms(1) f by (auto simp: val_sample_def Let_def split: sum.splits if_splits)
  obtain ls1 where fl: "forward_layers (layers (fs_self s)) (fst Xy) = Inr (ls1, y_hat)"
    and n1: "net1 = (fs_self s)\<lparr>layers := ls1\<rparr>"
    using f by (auto simp: net_forward_pass_def split: sum.splits)
  show ?thesis
    using assms(2) forward_layers_forget[OF fl] e n1 by (simp add: in_step_def)
qed

lemma val_loop_in_step:
  "val_loop i ps s = Inr s' \<Longrightarrow> in_step s net \<Longrightarrow> in_step s' net"
proof (induction ps arbitrary: i s)
  case Nil
  then show ?case by simp
next
  case (Cons Xy ps)
  obtain s1 where s1: "val_sample i Xy s = Inr s1"
    and rest: "val_loop (Suc i) ps s1 = Inr s'"
    using Cons.prems(1) by (auto split: sum.splits)
  show ?case using Cons.IH[OF rest val_sample_in_step[OF s1 Cons.prems(2)]] .
qed

lemma record_train_in_step:
  "record_train epoch s = Inr s' \<Longrightarrow> in_step s net \<Longrightarrow> in_step s' net"
  by (auto simp: record_train_def in_step_def split: option.splits)

lemma record_val_in_step:
  "record_val epoch s = Inr s' \<Longrightarrow> in_step s net \<Longrightarrow> in_step s' net"
  by (auto simp: record_val_def in_step_def split: option.splits)

lemma validate_in_step:
  assumes "validate X_val y_val epoch s = Inr s'" and "in_step s net"
  shows "in_step s' net"
proof -
  obtain y0 ys where y: "y_val = y0 # ys"
    using assms(1) by (cases y_val) (simp_all add: validate_def)
  let ?s = "s\<lparr>val_correct := replicate (length y0) 0, aggregated_val_loss := 0,
               num_val_correct := 0\<rparr>"
  obtain s1 where vl: "val_loop 0 (zip X_val y_val) ?s = Inr s1"
    and rv: "record_val epoch s1 = Inr s'"
    using assms(1) y by (auto simp: validate_def split: sum.splits)
  have "in_step ?s net" using assms(2) by (simp add: in_step_def)
  then have "in_step s1 net" using vl by (rule val_loop_in_step[rotated])
  then show ?thesis using rv by (rule record_val_in_step[rotated])
qed

lemma fit_epoch_in_step:
  assumes "fit_epoch val X_train y_train epoch s = Inr s'" and "in_step s net"
  shows "\<exists>net'. scheduled_run (epoch * int (length X_train) + 1) (zip X_train y_train) net
                  = Inr net' \<and> in_step s' net'"
proof -
  obtain s2 where te: "train_epoch X_train y_train epoch s = Inr s2"
    and v: "(case val of None \<Rightarrow> Inr s2 | Some (X_val, y_val) \<Rightarrow> validate X_val y_val epoch s2)
            = Inr s'"
    using assms(1) by (auto simp: fit_epoch_def split: sum.splits)
  let ?s = "s\<lparr>aggregated_train_loss := 0, num_train_correct := 0\<rparr>"
  obtain s1 where tl: "train_loop epoch (length X_train) 0 (zip X_train y_train) ?s = Inr s1"
    and rt: "record_train epoch s1 = Inr s2"
    using te by (auto simp: train_epoch_def split: sum.splits)
  have "in_step ?s net" using assms(2) by (simp add: in_step_def)
  then obtain net' where
    r: "scheduled_run (epoch * int (length X_train) + int 0 + 1) (zip X_train y_train) net
        = Inr net'"
    and i1: "in_step s1 net'"
    using train_loop_in_step[OF tl] by blast
  have i2: "in_step s2 net'" using rt i1 by (rule record_train_in_step)
  have "in_step s' net'"
  proof (cases val)
    case None
    then show ?thesis using v i2 by simp
  next
    case (Some p)
    obtain X_val y_val where p: "p = (X_val, y_val)" by (cases p)
    have "validate X_val y_val epoch s2 = Inr s'" using v Some p by simp
    then show ?thesis using i2 by (rule validate_in_step)
  qed
  then show ?thesis using r by auto
qed

lemma fit_epochs_in_step:
  "fit_epochs val X_train y_train (map int [e..<e + k]) s = Inr s' \<Longrightarrow> in_step s net \<Longrightarrow>
   length y_train = length X_train \<Longrightarrow>
   \<exists>net'. scheduled_run (int e * int (length X_train) + 1)
             (concat (replicate k (zip X_train y_train))) net = Inr net' \<and> in_step s' net'"
proof (induction k arbitrary: e s net)
  case 0
  then show ?case by simp
next
  case (Suc k)
  have up: "[e..<e + Suc k] = e # [Suc e..<Suc e + k]"
    using upt_conv_Cons[of e "e + Suc k"] by (simp del: upt_Suc)
  obtain s1 where fe: "fit_epoch val X_train y_train (int e) s = Inr s1"
    and rest: "fit_epochs val X_train y_train (map int [Suc e..<Suc e + k]) s1 = Inr s'"
    using Suc.prems(1) unfolding up by (auto split: sum.splits)
  let ?ps = "zip X_train y_train"
  obtain net1 where a: "scheduled_run (int e * int (length X_train) + 1) ?ps net = Inr net1"
    and i1: "in_step s1 net1"
    using fit_epoch_in_step[OF fe Suc.prems(2)] by blast
  obtain net' where
    b: "scheduled_run (int (Suc e) * int (length X_train) + 1) (concat (replicate k ?ps)) net1
        = Inr net'"
    and i': "in_step s' net'"
    using Suc.IH[OF rest i1 Suc.prems(3)] by blast
  have c: "int e * int (length X_train) + 1 + int (length ?ps)
        = int (Suc e) * int (length X_train) + 1"
    using Suc.prems(3) by (simp add: algebra_simps)
  have "scheduled_run (int e * int (length X_train) + 1) (?ps @ concat (replicate k ?ps)) net
             = Inr net'"
    using a b unfolding c[symmetric] by (rule scheduled_run_trans)
  then show ?case using i' by auto
qed

lemma fit_in_step:
  assumes "fit net X_train y_train X_val y_val epochs = Inr s"
    and "length y_train = length X_train"
  shows "\<exists>net'. scheduled_run 1 (concat (replicate (nat epochs) (zip X_train y_train))) net
                  = Inr net' \<and> in_step s net'"
proof -
  let ?s0 = "\<lparr>fs_self = net\<lparr>train_loss := [], train_accuracy := [], val_loss := [],
                              val_accuracy := []\<rparr>,
              fs_i = None, aggregated_train_loss = 0, num_train_correct = 0,
              aggregated_val_loss = 0, num_val_correct = 0, val_correct = [], update_log = []\<rparr>"
  have fe: "fit_epochs (validation_set X_val y_val) X_train y_train
              (map int [0..<0 + nat epochs]) ?s0 = Inr s"
    using assms(1) by (simp add: fit_def)
  have "in_step ?s0 net" by (simp add: in_step_def)
  then show ?thesis using fit_epochs_in_step[OF fe _ assms(2)] by simp
qed

section \<open>Claims\<close>

subsection \<open>C1: the gradient HiddenLayer.backward_pass returns\<close>

text \<open>
  C1 says that \<open>backward_pass\<close> of a hidden layer builds the local derivative of the
  activation from what the forward call stored (the derivative at the pre-activation
  point) and returns \<open>upstream . (local_derivative . W.T)\<close>. The code passes
  \<open>np.diag(J_L_N)\<close>, the upstream gradient, to \<open>activation.gradient\<close> and never reads
  \<open>self.output\<close>. On the layer with W = [[1]], b = [0] and Relu, after
  \<open>forward_pass([1])\<close> the pre-activation is 1, the stored output is 1 and the
  derivative there is 1, so the claimed result of \<open>backward_pass([-1])\<close> is [-1]; the
  code takes the derivative at the upstream value -1, which is 0, and returns [0]. What
  \<open>backward_pass\<close> returns does not depend on what the forward call stored
  (\<open>hidden_backward_ignores_forward\<close>).
\<close>

theorem hidden_backward_derivative_of_upstream:
  "hidden_forward ex_hidden [1] = Inr (ex_hidden_fwd, [1]) \<and>
   hidden_backward ex_hidden_fwd [- 1] =
     Inr (ex_hidden_fwd\<lparr>h_W_gradients := [[[0]]], h_b_gradients := [[0]]\<rparr>, [0]) \<and>
   claimed_downstream_gradient ex_hidden_fwd (claimed_local_derivative ex_hidden_fwd) [- 1]
     = Inr [- 1] \<and>
   claimed_downstream_gradient ex_hidden_fwd (claimed_local_derivative_of_output ex_hidden_fwd)
     [- 1] = Inr [- 1]"
  by (simp add: hidden_forward_def hidden_backward_def claimed_downstream_gradient_def
      claimed_local_derivative_def claimed_local_derivative_of_output_def ex_hidden_fwd_def
      ex_hidden_def np_dot_vm_def np_dot_mT_def np_diag_v_def np_diag_m_def np_outer_def
      bcast_mul_def dot_def vec_add_def vec_scale_def Relu_def Let_def)

subsection \<open>C2: when fit updates the parameters\<close>

text \<open>
  C2: when \<open>fit\<close> returns and \<open>X_train\<close> and \<open>y_train\<close> are equally long, the run
  that the claim describes returns as well, and the network \<open>fit\<close> leaves has, in every
  hidden layer, the \<open>W\<close>, \<open>b\<close>, \<open>W_gradients\<close> and \<open>b_gradients\<close> of that run. The run
  (\<open>scheduled_run\<close>) takes the samples of all epochs as one sequence, counts them from 1
  without starting again at an epoch, sends each forward and its loss gradient backward,
  and calls \<open>update_parameters\<close> on every hidden layer exactly after the samples whose
  count is a multiple of the batch size. So the parameters \<open>fit\<close> returns with depend
  on the sequence of the samples only and not on where an epoch ends, with or without a
  validation set. The values of \<open>epoch*len(X_train) + i + 1\<close> at which
  \<open>self._update_parameters()\<close> ran are, in order, the multiples of the batch size among
  1, 2, ..., epochs * len(X_train). With batch size 4 the updates are at 4 and 8, for
  one epoch of 8 samples as for two epochs of 4, and both leave the same weights (the
  example after the theorem).
\<close>

theorem fit_updates_at_batch_multiples:
  assumes "fit net X_train y_train X_val y_val epochs = Inr s"
    and "length y_train = length X_train"
  shows "(\<exists>net'. scheduled_run 1 (concat (replicate (nat epochs) (zip X_train y_train))) net
                    = Inr net' \<and>
                  map trainable (layers (fs_self s)) = map trainable (layers net')) \<and>
         update_log s = filter (\<lambda>c. c mod batch_size net = 0)
           (map int [1..<Suc (nat epochs * length X_train)])"
proof -
  have "update_log s = filter (\<lambda>c. c mod batch_size net = 0)
           (map int [1..<Suc (nat epochs * length X_train)])"
    using fit_effect(1)[OF assms(1)] run_counters[OF assms(2)] by simp
  moreover obtain net' where
    "scheduled_run 1 (concat (replicate (nat epochs) (zip X_train y_train))) net = Inr net'"
    and "in_step s net'"
    using fit_in_step[OF assms] by blast
  ultimately show ?thesis using map_forget_io_trainable[of "layers (fs_self s)" "layers net'"]
    by (auto simp: in_step_def)
qed

theorem fit_updates_at_batch_multiples_witness:
  "length (replicate 8 [1, 0 :: real]) = length (replicate 8 [1 :: real]) \<and>
   map_sum id (\<lambda>s. (update_log s, map trainable (layers (fs_self s))))
     (fit ex_net2 (replicate 8 [1]) (replicate 8 [1, 0]) None None 1)
     = Inr ([4, 8], [None, Some ([[- 1, - 2]], [0, - 4], [], []), None]) \<and>
   map_sum id (\<lambda>s. (update_log s, map trainable (layers (fs_self s))))
     (fit ex_net2 (replicate 4 [1]) (replicate 4 [1, 0]) None None 2)
     = Inr ([4, 8], [None, Some ([[- 1, - 2]], [0, - 4], [], []), None])"
proof -
  let ?t = "[None, Some ([[- 1, - 2]], [0, - 4], [], []), None]
            :: (mat \<times> vec \<times> mat list \<times> vec list) option list"
  have one: "map_sum id (\<lambda>s. (update_log s, map trainable (layers (fs_self s))))
               (fit ex_net2 (replicate n [1]) (replicate n [1, 0]) None None e)
             = Inr ([4, 8], ?t)"
    if r: "\<exists>s. fit ex_net2 (replicate n [1]) (replicate n [1, 0]) None None e = Inr s"
      and c: "filter (\<lambda>c. c mod 4 = 0) (map int [1..<Suc (nat e * n)]) = [4, 8]"
      and t: "map_sum id (map trainable \<circ> layers)
                (scheduled_run 1 (concat (replicate (nat e)
                   (zip (replicate n [1]) (replicate n [1, 0])))) ex_net2) = Inr ?t"
    for n e
  proof -
    obtain s where s: "fit ex_net2 (replicate n [1]) (replicate n [1, 0]) None None e = Inr s"
      using r by blast
    have len: "length (replicate n [1, 0 :: real]) = length (replicate n [1 :: real])" by simp
    obtain net' where
      sr: "scheduled_run 1 (concat (replicate (nat e)
             (zip (replicate n [1]) (replicate n [1, 0])))) ex_net2 = Inr net'"
      and tr: "map trainable (layers (fs_self s)) = map trainable (layers net')"
      and lg: "update_log s = filter (\<lambda>c. c mod batch_size ex_net2 = 0)
                 (map int [1..<Suc (nat e * length (replicate n [1 :: real]))])"
      using fit_updates_at_batch_multiples[OF s len] by blast
    have "map trainable (layers net') = ?t" using t sr by simp
    moreover have "update_log s = [4, 8]" using lg c by (simp add: ex_net2_def)
    ultimately show ?thesis using s tr by simp
  qed
  have 1: "map_sum id (\<lambda>s. (update_log s, map trainable (layers (fs_self s))))
             (fit ex_net2 (replicate 8 [1]) (replicate 8 [1, 0]) None None 1) = Inr ([4, 8], ?t)"
    by (rule one)
       (simp_all add: fit_eval ex_net2_def ex_hidden2_def update_every_hidden_def trainable_def)
  have 2: "map_sum id (\<lambda>s. (update_log s, map trainable (layers (fs_self s))))
             (fit ex_net2 (replicate 4 [1]) (replicate 4 [1, 0]) None None 2) = Inr ([4, 8], ?t)"
    by (rule one)
       (simp_all add: fit_eval ex_net2_def ex_hidden2_def update_every_hidden_def trainable_def)
  show ?thesis using 1 2 by simp
qed

subsection \<open>C3: update_parameters, and nothing else, changes W and b\<close>

text \<open>
  C3: for every hidden layer, \<open>update_parameters\<close> returns, every entry of the new \<open>W\<close>
  is the old one minus the learning rate times the sum of that entry over \<open>W_gradients\<close>,
  every entry of the new \<open>b\<close> is the old one minus the learning rate times the sum of
  that entry over \<open>b_gradients\<close>, and both buffers are empty afterwards, whatever their
  length was; \<open>forward_pass\<close> and \<open>backward_pass\<close> leave \<open>W\<close> and \<open>b\<close> as they are.
\<close>

theorem update_parameters_only_changes_weights:
  assumes "wf_hidden l"
  shows "(\<exists>l'. update_parameters l = Inr l' \<and>
           (\<forall>i<length (h_W l). \<forall>j<h_size l.
              h_W l' ! i ! j =
                h_W l ! i ! j - h_learning_rate l * (\<Sum>G\<leftarrow>h_W_gradients l. G ! i ! j)) \<and>
           is_mat (length (h_W l)) (h_size l) (h_W l') \<and>
           (\<forall>j<h_size l.
              h_b l' ! j = h_b l ! j - h_learning_rate l * (\<Sum>g\<leftarrow>h_b_gradients l. g ! j)) \<and>
           length (h_b l') = h_size l \<and>
           h_W_gradients l' = [] \<and> h_b_gradients l' = []) \<and>
         (\<forall>X l1 y. hidden_forward l X = Inr (l1, y) \<longrightarrow> h_W l1 = h_W l \<and> h_b l1 = h_b l) \<and>
         (\<forall>g l2 d. hidden_backward l g = Inr (l2, d) \<longrightarrow> h_W l2 = h_W l \<and> h_b l2 = h_b l)"
proof -
  let ?m = "length (h_W l)" and ?n = "h_size l" and ?c = "h_learning_rate l"
  have W: "is_mat ?m ?n (h_W l)" and b: "length (h_b l) = ?n"
    and GW: "list_all (is_mat ?m ?n) (h_W_gradients l)"
    and Gb: "list_all (\<lambda>g. length g = ?n) (h_b_gradients l)"
    using assms by (simp_all add: wf_hidden_def)
  obtain SW where SW: "np_sum_mats (h_W_gradients l) = Inr SW"
    using np_sum_mats_ok[OF GW] by blast
  obtain Sb where Sb: "np_sum_vecs (h_b_gradients l) = Inr Sb"
    using np_sum_vecs_ok[OF Gb] by blast
  obtain W' where W': "isub_mat (h_W l) ?c SW = Inr W'" "is_mat ?m ?n W'"
    "\<forall>i<?m. \<forall>j<?n. W' ! i ! j = h_W l ! i ! j - ?c * (\<Sum>G\<leftarrow>h_W_gradients l. G ! i ! j)"
    using isub_mat_entries[OF W SW GW, of ?c] by blast
  obtain b' where b': "isub_vec (h_b l) ?c Sb = Inr b'" "length b' = ?n"
    "\<forall>j<?n. b' ! j = h_b l ! j - ?c * (\<Sum>g\<leftarrow>h_b_gradients l. g ! j)"
    using isub_vec_entries[OF b Sb Gb, of ?c] by blast
  have "update_parameters l =
          Inr (l\<lparr>h_W := W', h_W_gradients := [], h_b := b', h_b_gradients := []\<rparr>)"
    using SW Sb W'(1) b'(1) by (simp add: update_parameters_def)
  then have upd: "\<exists>l'. update_parameters l = Inr l' \<and>
           (\<forall>i<?m. \<forall>j<?n.
              h_W l' ! i ! j = h_W l ! i ! j - ?c * (\<Sum>G\<leftarrow>h_W_gradients l. G ! i ! j)) \<and>
           is_mat ?m ?n (h_W l') \<and>
           (\<forall>j<?n. h_b l' ! j = h_b l ! j - ?c * (\<Sum>g\<leftarrow>h_b_gradients l. g ! j)) \<and>
           length (h_b l') = ?n \<and> h_W_gradients l' = [] \<and> h_b_gradients l' = []"
    using W'(2,3) b'(2,3) by simp
  have fwd: "\<forall>X l1 y. hidden_forward l X = Inr (l1, y) \<longrightarrow> h_W l1 = h_W l \<and> h_b l1 = h_b l"
    by (auto dest: hidden_forward_frame)
  have bwd: "\<forall>g l2 d. hidden_backward l g = Inr (l2, d) \<longrightarrow> h_W l2 = h_W l \<and> h_b l2 = h_b l"
    by (auto dest: hidden_backward_frame)
  show ?thesis using upd fwd bwd by blast
qed

theorem update_parameters_only_changes_weights_witness:
  "wf_hidden ex_hidden_acc \<and>
   update_parameters ex_hidden_acc =
     Inr (ex_hidden_acc\<lparr>h_W := [[0]], h_W_gradients := [], h_b := [- 1 / 2],
                        h_b_gradients := []\<rparr>) \<and>
   hidden_forward ex_hidden_acc [1] = Inr (ex_hidden_acc, [1]) \<and>
   hidden_backward ex_hidden_acc [2] =
     Inr (ex_hidden_acc\<lparr>h_W_gradients := [[[2]], [[2]]], h_b_gradients := [[1], [1]]\<rparr>, [2])"
  using update_parameters_only_changes_weights[of ex_hidden_acc]
  by (simp add: wf_hidden_def is_mat_def update_parameters_def isub_mat_def isub_vec_def
      mat_sub_def mat_scale_def vec_sub_def hidden_forward_def hidden_backward_def
      ex_hidden_acc_def ex_hidden_fwd_def ex_hidden_def np_dot_vm_def np_dot_mT_def
      np_diag_v_def np_diag_m_def np_outer_def bcast_mul_def dot_def vec_add_def vec_scale_def
      Relu_def Let_def)

subsection \<open>C4: the four histories after fit\<close>

text \<open>
  C4 as stated gives each of the four histories one entry per epoch. Without a
  validation set the branch \<open>if is_validating\<close> is skipped and the two validation
  histories stay empty: after one epoch they have no entry.
\<close>

theorem fit_history_without_validation_counterexample:
  "map_sum id (\<lambda>s. (map fst (train_loss (fs_self s)), val_loss (fs_self s), val_accuracy (fs_self s)))
     (fit ex_net [[1]] [[1]] None None 1) = Inr ([0], [], [])"
  by (simp add: fit_eval)

text \<open>
  C4, amended: after every \<open>fit\<close> call that returns, the training loss and the training
  accuracy history have exactly one entry per epoch, for the epochs 0, 1, ..., epochs - 1
  in this order, whatever the histories held before the call; the validation loss and
  the validation accuracy history have the same when a validation set was supplied
  (\<open>X_val\<close> and \<open>y_val\<close> both given) and are empty otherwise.
\<close>

theorem fit_histories_per_epoch:
  assumes "fit net X_train y_train X_val y_val epochs = Inr s"
  shows "map fst (train_loss (fs_self s)) = map int [0..<nat epochs] \<and>
         map fst (train_accuracy (fs_self s)) = map int [0..<nat epochs] \<and>
         map fst (val_loss (fs_self s)) =
           (if X_val \<noteq> None \<and> y_val \<noteq> None then map int [0..<nat epochs] else []) \<and>
         map fst (val_accuracy (fs_self s)) =
           (if X_val \<noteq> None \<and> y_val \<noteq> None then map int [0..<nat epochs] else [])"
proof -
  have "(case validation_set X_val y_val of None \<Rightarrow> [] | Some v \<Rightarrow> map int [0..<nat epochs]) =
        (if X_val \<noteq> None \<and> y_val \<noteq> None then map int [0..<nat epochs] else [])"
    by (cases X_val; cases y_val) simp_all
  then show ?thesis using fit_effect(3-6)[OF assms] by simp
qed

theorem fit_histories_per_epoch_witness:
  "map_sum id (\<lambda>s. (train_loss (fs_self s), train_accuracy (fs_self s),
                    val_loss (fs_self s), val_accuracy (fs_self s)))
     (fit (ex_net\<lparr>train_loss := [(7, 1)], val_loss := [(7, 1)]\<rparr>)
          [[1], [1], [1]] [[1], [1], [1]] (Some [[1]]) (Some [[1]]) 2)
   = Inr ([(0, 0), (1, 0)], [(0, 1), (1, 1)], [(0, 0), (1, 0)], [(0, 1), (1, 1)])"
proof -
  let ?r = "fit (ex_net\<lparr>train_loss := [(7, 1)], val_loss := [(7, 1)]\<rparr>)
          [[1], [1], [1]] [[1], [1], [1]] (Some [[1]]) (Some [[1]]) 2"
  have "\<exists>s. ?r = Inr s" by (simp add: fit_eval)
  then obtain s where s: "?r = Inr s" by blast
  have ep: "map fst (train_loss (fs_self s)) = [0, 1]"
    using fit_histories_per_epoch[OF s] by (simp add: upt_rec)
  have "map_sum id (\<lambda>s. (train_loss (fs_self s), train_accuracy (fs_self s),
                    val_loss (fs_self s), val_accuracy (fs_self s))) ?r
   = Inr ([(0, 0), (1, 0)], [(0, 1), (1, 1)], [(0, 0), (1, 0)], [(0, 1), (1, 1)])"
    by (simp add: fit_eval)
  then show ?thesis using ep by simp
qed

subsection \<open>C5: SoftmaxLayer.forward_pass\<close>

text \<open>
  C5 is about the floating-point result of \<open>forward_pass\<close>: that subtracting the maximum
  keeps \<open>np.exp\<close> from overflowing on entries of large magnitude, and that the entries
  returned sum to 1 within a tolerance. Arrays hold real numbers here, and over the real
  numbers the subtraction cancels between numerator and denominator, nothing overflows,
  and the sum is 1 exactly; rounding, overflow and underflow do not occur in this
  development, so C5 is not stated in it. The three lemmas below say what
  \<open>softmax_forward\<close> does in exact arithmetic: on a vector that is not empty it stores and
  returns the entries \<open>exp (x - max) / sum\<close>, which are not negative and sum to 1; on the
  empty vector \<open>np.max\<close> raises, and nothing is stored or returned.
\<close>

lemma softmax_forward_exact:
  assumes "X \<noteq> []"
  shows "\<exists>out. softmax_forward l X = Inr (l\<lparr>s_input := Some X, s_output := Some out\<rparr>, out) \<and>
           out = map (\<lambda>x. exp (x - Max (set X)) / (\<Sum>x'\<leftarrow>X. exp (x' - Max (set X)))) X \<and>
           (\<forall>a\<in>set out. 0 \<le> a) \<and> sum_list out = 1"
proof -
  let ?m = "Max (set X)"
  let ?s = "\<Sum>x'\<leftarrow>X. exp (x' - ?m)"
  let ?out = "map (\<lambda>x. exp (x - ?m) / ?s) X"
  have pos: "0 < ?s" using assms by (rule sum_list_exp_pos)
  have eq: "softmax_forward l X = Inr (l\<lparr>s_input := Some X, s_output := Some ?out\<rparr>, ?out)"
    using np_max_Max[OF assms] by (simp add: softmax_forward_def Let_def comp_def)
  have nn: "\<forall>a\<in>set ?out. 0 \<le> a" using pos by auto
  have "sum_list ?out = sum_list (map (\<lambda>a. a / ?s) (map (\<lambda>x. exp (x - ?m)) X))"
    by (simp add: comp_def)
  also have "\<dots> = ?s / ?s" by (rule sum_list_divide_const)
  also have "\<dots> = 1" using pos by simp
  finally have "sum_list ?out = 1" .
  with eq nn show ?thesis by blast
qed

lemma softmax_forward_exact_example:
  "softmax_forward ex_softmax [0, 0] =
     Inr (ex_softmax\<lparr>s_input := Some [0, 0], s_output := Some [1 / 2, 1 / 2]\<rparr>, [1 / 2, 1 / 2])"
  using softmax_forward_exact[of "[0, 0]" ex_softmax] by simp

lemma softmax_forward_empty:
  "softmax_forward l [] = Inl ValueError"
  by (simp add: softmax_forward_def)

subsection \<open>C6: SoftmaxLayer.backward_pass\<close>

text \<open>
  C6: for every softmax layer with a stored output of length n and every upstream
  gradient of length n, \<open>backward_pass\<close> returns a vector of length n whose entry j is
  the sum over i of \<open>upstream[i] * J[i][j]\<close> with \<open>J[i][j] = output[i] * (delta_ij - output[j])\<close>,
  and leaves the layer as it is.
\<close>

theorem softmax_backward_jacobian:
  assumes "s_output l = Some out" and "length J_L_S = length out"
  shows "\<exists>J_L_N. softmax_backward l J_L_S = Inr (l, J_L_N) \<and> length J_L_N = length out \<and>
           (\<forall>j<length out. J_L_N ! j =
              (\<Sum>i<length out. J_L_S ! i * (out ! i * ((if i = j then 1 else 0) - out ! j))))"
proof -
  have sh: "list_all (\<lambda>r. length r = length out) (softmax_jacobian out)"
    and ln: "length (softmax_jacobian out) = length out"
    using softmax_jacobian_shape[of out] by (simp_all add: is_mat_def)
  have eq: "softmax_backward l J_L_S = Inr (l, rows_comb (length out) J_L_S (softmax_jacobian out))"
    using assms ln by (simp add: softmax_backward_def np_dot_vm_def)
  show ?thesis
    using eq assms(2) ln sh
    by (simp add: length_rows_comb rows_comb_nth softmax_jacobian_nth)
qed

theorem softmax_backward_jacobian_witness:
  "s_output ex_softmax_out = Some [1 / 2, 1 / 2] \<and>
   length [1, 0 :: real] = length [1 / 2, 1 / 2 :: real] \<and>
   softmax_backward ex_softmax_out [1, 0] = Inr (ex_softmax_out, [1 / 4, - 1 / 4])"
  using softmax_backward_jacobian[of ex_softmax_out "[1 / 2, 1 / 2]" "[1, 0]"]
  by (simp add: ex_softmax_out_def ex_softmax_def softmax_backward_def np_dot_vm_def
      softmax_jacobian_def upt_rec vec_add_def vec_scale_def power2_eq_square)

subsection \<open>C7: update_parameters with empty buffers\<close>

text \<open>
  C7: \<open>update_parameters\<close> on a hidden layer whose two gradient buffers are empty returns
  and leaves the layer, \<open>W\<close> and \<open>b\<close> with it, as it was.
\<close>

theorem update_parameters_empty_noop:
  assumes "h_W_gradients l = []" and "h_b_gradients l = []"
  shows "update_parameters l = Inr l"
  using assms by (simp add: update_parameters_def isub_mat_def isub_vec_def)

theorem update_parameters_empty_noop_witness:
  "h_W_gradients ex_hidden = [] \<and> h_b_gradients ex_hidden = [] \<and>
   update_parameters ex_hidden = Inr ex_hidden"
  using update_parameters_empty_noop[of ex_hidden] by (simp add: ex_hidden_def)

subsection \<open>C8: the lengths of the gradient buffers\<close>

text \<open>
  C8: after any sequence of forward passes, backward passes and parameter updates on a
  network that returns, every hidden layer is still a hidden layer at its place, and
  the lengths of its \<open>W_gradients\<close> and of its \<open>b_gradients\<close> are both the number of
  backward passes since the last update (added to the length at the start when there was
  no update): a forward pass leaves the buffers, a backward pass appends one entry to
  each, an update empties both. The training loop of \<open>fit\<close> is such a sequence
  (\<open>train_loop_by_run_ops\<close>).
\<close>

theorem gradient_buffers_count_pending:
  assumes "run_ops net ops = Inr net'"
  shows "length (layers net') = length (layers net) \<and>
         (\<forall>j<length (layers net). \<forall>h. layers net ! j = HiddenLayer h \<longrightarrow>
            (\<exists>h'. layers net' ! j = HiddenLayer h' \<and>
                  length (h_W_gradients h') = pending (length (h_W_gradients h)) ops \<and>
                  length (h_b_gradients h') = pending (length (h_b_gradients h)) ops))"
  using run_ops_bufs[OF assms] by (rule bufs_pointwise)

theorem gradient_buffers_count_pending_witness:
  "map_sum id (\<lambda>net. map bufs (layers net))
     (run_ops ex_net [Forward [1], Backward [0], Forward [1], Backward [0], Update,
                      Forward [1], Backward [0]])
   = Inr [None, Some (1, 1), None] \<and>
   pending 0 [Forward [1], Backward [0], Forward [1], Backward [0], Update,
              Forward [1], Backward [0]] = 1"
proof -
  let ?ops = "[Forward [1], Backward [0], Forward [1], Backward [0], Update,
               Forward [1], Backward [0]]"
  have "\<exists>net'. run_ops ex_net ?ops = Inr net'" by (simp add: fit_eval)
  then obtain net' where n: "run_ops ex_net ?ops = Inr net'" by blast
  have "length (layers net') = 3"
    using gradient_buffers_count_pending[OF n] by (simp add: ex_net_def)
  moreover have "map_sum id (\<lambda>net. map bufs (layers net)) (run_ops ex_net ?ops)
     = Inr [None, Some (1, 1), None]"
    by (simp add: fit_eval bufs_def)
  ultimately show ?thesis by simp
qed

subsection \<open>C9: the validation pass\<close>

text \<open>
  C9: when an epoch of \<open>fit\<close> with a validation set returns, its training part returned
  some state, the validation part started from that state, and the state after the
  validation part has, for every hidden layer, the same \<open>W\<close>, \<open>b\<close>, \<open>W_gradients\<close> and
  \<open>b_gradients\<close> as the state after the training part, and no parameter update was
  logged in between.
\<close>

theorem validation_is_forward_only:
  assumes "fit_epoch (Some (X_val, y_val)) X_train y_train epoch s = Inr s'"
  shows "\<exists>s1. train_epoch X_train y_train epoch s = Inr s1 \<and>
               validate X_val y_val epoch s1 = Inr s' \<and>
               map trainable (layers (fs_self s')) = map trainable (layers (fs_self s1)) \<and>
               update_log s' = update_log s1"
proof -
  obtain s1 where te: "train_epoch X_train y_train epoch s = Inr s1"
    and va: "validate X_val y_val epoch s1 = Inr s'"
    using assms by (auto simp: fit_epoch_def split: sum.splits)
  show ?thesis using te va validate_effect(1,2)[OF va] by blast
qed

theorem validation_is_forward_only_witness:
  "map_sum id (\<lambda>s. map trainable (layers (fs_self s)))
     (fit_epoch (Some ([[1], [1]], [[1], [1]])) [[1]] [[1]] 0 (ex_state ex_net))
   = Inr [None, Some ([[1]], [0], [[[0]]], [[0]]), None] \<and>
   map_sum id (\<lambda>s. map trainable (layers (fs_self s)))
     (train_epoch [[1]] [[1]] 0 (ex_state ex_net))
   = Inr [None, Some ([[1]], [0], [[[0]]], [[0]]), None]"
proof -
  let ?r = "fit_epoch (Some ([[1], [1]], [[1], [1]])) [[1]] [[1]] 0 (ex_state ex_net)"
  have "\<exists>s'. ?r = Inr s'" by (simp add: fit_eval)
  then obtain s' where s': "?r = Inr s'" by blast
  obtain s1 where s1: "train_epoch [[1]] [[1]] 0 (ex_state ex_net) = Inr s1"
    and eq: "map trainable (layers (fs_self s')) = map trainable (layers (fs_self s1))"
    using validation_is_forward_only[OF s'] by blast
  have "map_sum id (\<lambda>s. map trainable (layers (fs_self s))) ?r
          = Inr [None, Some ([[1]], [0], [[[0]]], [[0]]), None]"
    by (simp add: fit_eval trainable_def)
  then show ?thesis using s' s1 eq by simp
qed

subsection \<open>C10: fit does not flush the last incomplete batch\<close>

text \<open>
  C10: let N = epochs * len(X_train) and r = N mod batch_size, for a positive batch size
  and equally long \<open>X_train\<close> and \<open>y_train\<close>. When \<open>fit\<close> returns, no parameter update of
  the call happened after sample N - r, and every hidden layer holds in \<open>W_gradients\<close> and
  in \<open>b_gradients\<close> the r gradients of the trailing samples: exactly r entries when an
  update happened during the call (N >= batch_size), and the N gradients of the call
  after what the buffer held before otherwise.
\<close>

theorem fit_leaves_trailing_gradients:
  assumes "fit net X_train y_train X_val y_val epochs = Inr s"
    and "length y_train = length X_train"
    and "0 < batch_size net"
  shows "(\<forall>c\<in>set (update_log s).
            c \<le> int (nat epochs * length X_train)
                - int ((nat epochs * length X_train) mod nat (batch_size net))) \<and>
         length (layers (fs_self s)) = length (layers net) \<and>
         (\<forall>j<length (layers net). \<forall>h. layers net ! j = HiddenLayer h \<longrightarrow>
            (\<exists>h'. layers (fs_self s) ! j = HiddenLayer h' \<and>
               length (h_W_gradients h') =
                 (if nat epochs * length X_train < nat (batch_size net)
                  then length (h_W_gradients h) + nat epochs * length X_train
                  else (nat epochs * length X_train) mod nat (batch_size net)) \<and>
               length (h_b_gradients h') =
                 (if nat epochs * length X_train < nat (batch_size net)
                  then length (h_b_gradients h) + nat epochs * length X_train
                  else (nat epochs * length X_train) mod nat (batch_size net))))"
proof -
  let ?N = "nat epochs * length X_train" and ?b = "nat (batch_size net)"
  have b: "0 < ?b" "int ?b = batch_size net" using assms(3) by simp_all
  have cs: "concat (map (counters (length X_train) (length (zip X_train y_train)))
                     (map int [0..<nat epochs])) = map int [1..<Suc ?N]"
    by (rule run_counters[OF assms(2)])
  have log: "update_log s = filter (\<lambda>c. c mod batch_size net = 0) (map int [1..<Suc ?N])"
    using fit_effect(1)[OF assms(1)] cs by simp
  have 1: "\<forall>c\<in>set (update_log s). c \<le> int ?N - int (?N mod ?b)"
  proof
    fix c assume c: "c \<in> set (update_log s)"
    have cin: "c \<in> int ` {1..<Suc ?N}" and cm: "c mod batch_size net = 0"
      using c unfolding log by (simp_all del: upt_Suc)
    obtain k where k: "c = int k" "1 \<le> k" "k \<le> ?N"
      using cin by auto
    have "int k mod int ?b = 0" using cm k(1) b by simp
    then have "k mod ?b = 0" by (simp only: zmod_int[symmetric] of_nat_eq_0_iff)
    then show "c \<le> int ?N - int (?N mod ?b)"
      unfolding k(1) using b(1) k(3) by (intro multiple_le_floor)
  qed
  have track: "buf_track (batch_size net) (map int [1..<Suc ?N]) =
      map_prod (\<lambda>a. if ?N < ?b then a + ?N else ?N mod ?b)
               (\<lambda>a. if ?N < ?b then a + ?N else ?N mod ?b)"
    using fold_buf_step_run[OF b(1), of ?N] b(2)
    by (simp add: buf_track_def fun_eq_iff)
  have "map bufs (layers (fs_self s)) =
      map (map_option (map_prod (\<lambda>a. if ?N < ?b then a + ?N else ?N mod ?b)
                                 (\<lambda>a. if ?N < ?b then a + ?N else ?N mod ?b)) \<circ> bufs)
          (layers net)"
    using fit_effect(2)[OF assms(1)] cs track by simp
  from bufs_pointwise[OF this] 1 show ?thesis by simp
qed

theorem fit_leaves_trailing_gradients_witness:
  "length [[1], [1], [1::real]] = length [[1], [1], [1::real]] \<and> 0 < batch_size ex_net \<and>
   map_sum id (\<lambda>s. (update_log s, map bufs (layers (fs_self s))))
     (fit ex_net [[1], [1], [1]] [[1], [1], [1]] None None 2)
   = Inr ([4], [None, Some (2, 2), None])"
proof -
  let ?r = "fit ex_net [[1], [1], [1]] [[1], [1], [1]] None None 2"
  have "\<exists>s. ?r = Inr s" by (simp add: fit_eval)
  then obtain s where s: "?r = Inr s" by blast
  have "\<forall>c\<in>set (update_log s). c \<le> 4"
    using fit_leaves_trailing_gradients[OF s] by (simp add: ex_net_def)
  moreover have "map_sum id (\<lambda>s. (update_log s, map bufs (layers (fs_self s)))) ?r
          = Inr ([4], [None, Some (2, 2), None])"
    by (simp add: fit_eval bufs_def)
  ultimately show ?thesis by (simp add: ex_net_def)
qed

end
